theory Spec2Isabelle
  imports Main
begin

section \<open>JavaScript values, promises and completions\<close>

text \<open>
  The error boundary of the client (class \<open>ErrorBoundary\<close>) wraps units of work that may
  return a value, return a promise, or throw. The model below makes each of these an
  explicit value.

  \<^item> \<open>error_kind\<close> is the class of an \<open>Error\<close> instance as far as the boundary
    distinguishes it with \<open>instanceof\<close>: the two contract-violation classes, or any other
    class deriving from \<open>Error\<close>.
  \<^item> \<open>js_number\<close> is a number. A finite number other than zero is given by its sign
    and the shortest decimal that identifies it, as in the specification of
    \<open>Number::toString\<close>: \<open>Finite neg s n\<close> is the number with digits \<open>s\<close> (not
    ending in 0) and value \<open>s\<close> times 10 to the power \<open>n - k\<close>, where \<open>k\<close> is the
    number of digits of \<open>s\<close>, negated when \<open>neg\<close> holds. So 404 is
    \<open>Finite False 404 3\<close>, 1.5 is \<open>Finite False 15 1\<close> and ten to the power 21 is
    \<open>Finite False 1 22\<close>.
  \<^item> \<open>jsval\<close> is a JavaScript value that is not a promise. \<open>JError k name message stack\<close>
    is an instance of \<open>Error\<close>; its \<open>stack\<close> is optional, as in the declaration of
    \<open>Error\<close>. \<open>JCyclic\<close> stands for a value that \<open>JSON.stringify\<close> rejects (a
    circular structure, a \<open>BigInt\<close>). \<open>JFunction\<close> stands for a function or a
    symbol, which \<open>JSON.stringify\<close> treats like \<open>undefined\<close>. \<open>JsonOf v\<close> is
    the JSON text that \<open>JSON.stringify\<close> produces for the value \<open>v\<close>, from which
    the properties it leaves out have been removed; the characters of the text are left
    symbolic.
  \<^item> a promise is modelled by its eventual fate (\<open>promise_state\<close>); \<open>Pending\<close> is a
    promise that never settles.
  \<^item> \<open>result\<close> is what a function hands back: a plain value or a promise
    (\<open>result instanceof Promise\<close>).
  \<^item> \<open>completion\<close> is how a call ends: normally, or by throwing a value.
\<close>

datatype error_kind = StatsigUninitializedError | StatsigInvalidArgumentError | OtherError

datatype js_number = Finite bool nat int | Zero | NaN | Infinity bool

datatype jsval =
    JUndefined
  | JNull
  | JBool bool
  | JNum js_number
  | JStr string
  | JObj "(string \<times> jsval) list"
  | JError error_kind string string "string option"
  | JCyclic
  | JFunction
  | JsonOf jsval

datatype promise_state = Fulfilled jsval | Rejected jsval | Pending

datatype result = Plain jsval | Promise promise_state

datatype 'a completion = Normal 'a | Throw jsval

text \<open>What \<open>await\<close> does with a result: resume with a value, raise, or stay suspended.\<close>

datatype 'a awaited = Resumed 'a | Raised jsval | Suspended

fun await :: "result \<Rightarrow> jsval awaited" where
  "await (Plain v) = Resumed v"
| "await (Promise (Fulfilled v)) = Resumed v"
| "await (Promise (Rejected e)) = Raised e"
| "await (Promise Pending) = Suspended"

text \<open>Resolving a promise with a result: a plain value fulfils it, a promise is adopted.\<close>

fun resolve :: "result \<Rightarrow> promise_state" where
  "resolve (Plain v) = Fulfilled v"
| "resolve (Promise p) = p"

text \<open>
  \<open>p.catch(h)\<close> and \<open>p.then(h)\<close>, with the handler a state transformer. The handler's
  completion settles the derived promise.
\<close>

definition settle :: "'st \<times> result completion \<Rightarrow> 'st \<times> promise_state" where
  "settle sc = (case snd sc of Throw x \<Rightarrow> (fst sc, Rejected x) | Normal r \<Rightarrow> (fst sc, resolve r))"

fun promise_catch ::
  "promise_state \<Rightarrow> (jsval \<Rightarrow> 'st \<Rightarrow> 'st \<times> result completion) \<Rightarrow> 'st \<Rightarrow> 'st \<times> promise_state" where
  "promise_catch (Rejected e) h s = settle (h e s)"
| "promise_catch (Fulfilled v) h s = (s, Fulfilled v)"
| "promise_catch Pending h s = (s, Pending)"

fun promise_then ::
  "promise_state \<Rightarrow> (jsval \<Rightarrow> 'st \<Rightarrow> 'st \<times> result completion) \<Rightarrow> 'st \<Rightarrow> 'st \<times> promise_state" where
  "promise_then (Fulfilled v) h s = settle (h v s)"
| "promise_then (Rejected e) h s = (s, Rejected e)"
| "promise_then Pending h s = (s, Pending)"

fun instanceof_Error :: "jsval \<Rightarrow> bool" where
  "instanceof_Error (JError k n m st) = True"
| "instanceof_Error v = False"

fun instanceof_kind :: "jsval \<Rightarrow> error_kind \<Rightarrow> bool" where
  "instanceof_kind (JError k n m st) c = (k = c)"
| "instanceof_kind v c = False"

fun error_name :: "jsval \<Rightarrow> string" where
  "error_name (JError k n m st) = n"
| "error_name v = []"

fun error_stack :: "jsval \<Rightarrow> jsval" where
  "error_stack (JError k n m (Some st)) = JStr st"
| "error_stack v = JUndefined"

subsection \<open>\<open>JSON.stringify\<close> and \<open>String\<close>\<close>

fun serializable :: "jsval \<Rightarrow> bool" where
  "serializable JCyclic = False"
| "serializable (JObj kvs) = list_all (\<lambda>kv. serializable (snd kv)) kvs"
| "serializable v = True"

text \<open>
  \<open>JSON.stringify\<close> leaves out every property of an object whose value is
  \<open>undefined\<close>, a function or a symbol: \<open>json_value v\<close> is what remains of \<open>v\<close>
  in the text. Applied to such a value itself it returns \<open>undefined\<close>, and on a value
  it rejects it throws.
\<close>

definition json_omitted :: "jsval \<Rightarrow> bool" where
  "json_omitted v = (v = JUndefined \<or> v = JFunction)"

fun json_value :: "jsval \<Rightarrow> jsval"
  and json_fields :: "(string \<times> jsval) list \<Rightarrow> (string \<times> jsval) list" where
  "json_value (JObj kvs) = JObj (json_fields kvs)"
| "json_value v = v"
| "json_fields [] = []"
| "json_fields (kv # kvs) =
     (if json_omitted (snd kv) then json_fields kvs
      else (fst kv, json_value (snd kv)) # json_fields kvs)"

definition JSON_stringify :: "jsval \<Rightarrow> jsval completion" where
  "JSON_stringify v =
     (if json_omitted v then Normal JUndefined
      else if serializable v then Normal (JsonOf (json_value v))
      else Throw (JError OtherError ''TypeError'' ''Converting circular structure to JSON'' None))"

definition digit_char :: "nat \<Rightarrow> char" where
  "digit_char d = ''0123456789'' ! d"

fun string_of_nat :: "nat \<Rightarrow> string" where
  "string_of_nat n =
     (if n < 10 then [digit_char n] else string_of_nat (n div 10) @ [digit_char (n mod 10)])"

declare string_of_nat.simps [simp del]

text \<open>
  \<open>Number_toString\<close> is \<open>Number::toString\<close> for radix 10: with \<open>k\<close> the number
  of digits of \<open>s\<close>, the digits followed by zeros when \<open>k \<le> n \<le> 21\<close>, the digits with
  a decimal point after the first \<open>n\<close> when \<open>0 < n \<le> 21\<close>, \<open>0.\<close> followed by zeros
  and the digits when \<open>-6 < n \<le> 0\<close>, and exponent notation otherwise.
\<close>

definition exponent_text :: "int \<Rightarrow> string" where
  "exponent_text e = (if e < 0 then ''-'' else ''+'') @ string_of_nat (nat \<bar>e\<bar>)"

definition positive_text :: "nat \<Rightarrow> int \<Rightarrow> string" where
  "positive_text s n =
     (let ds = string_of_nat s; k = int (length ds)
      in if k \<le> n \<and> n \<le> 21 then ds @ replicate (nat (n - k)) (CHR ''0'')
         else if 0 < n \<and> n \<le> 21 then take (nat n) ds @ ''.'' @ drop (nat n) ds
         else if - 6 < n \<and> n \<le> 0 then ''0.'' @ replicate (nat (- n)) (CHR ''0'') @ ds
         else if k = 1 then ds @ ''e'' @ exponent_text (n - 1)
         else take 1 ds @ ''.'' @ drop 1 ds @ ''e'' @ exponent_text (n - 1))"

fun Number_toString :: "js_number \<Rightarrow> string" where
  "Number_toString NaN = ''NaN''"
| "Number_toString Zero = ''0''"
| "Number_toString (Infinity neg) = (if neg then ''-Infinity'' else ''Infinity'')"
| "Number_toString (Finite neg s n) = (if neg then ''-'' else []) @ positive_text s n"

text \<open>
  The SDK metadata is a \<open>Record<string, string | number>\<close>; \<open>js_String\<close> is
  \<open>String(metadata[key])\<close>: the text \<open>undefined\<close> for a missing key, a string itself,
  and a number as \<open>Number::toString\<close> prints it.
\<close>

datatype meta_value = MStr string | MNum js_number

type_synonym metadata = "(string \<times> meta_value) list"

fun js_String :: "meta_value option \<Rightarrow> string" where
  "js_String None = ''undefined''"
| "js_String (Some (MStr s)) = s"
| "js_String (Some (MNum x)) = Number_toString x"

fun meta_to_js :: "meta_value \<Rightarrow> jsval" where
  "meta_to_js (MStr s) = JStr s"
| "meta_to_js (MNum i) = JNum i"

definition meta_obj :: "metadata \<Rightarrow> jsval" where
  "meta_obj md = JObj (map (\<lambda>kv. (fst kv, meta_to_js (snd kv))) md)"

section \<open>The session state\<close>

text \<open>
  A request handed to \<open>fetch\<close>, the observable events of a session (console output,
  calls of the extra-data extractor, calls of \<open>fetch\<close>), and the diagnostics markers.
\<close>

record request =
  url :: string
  http_method :: string
  headers :: "(string \<times> string) list"
  body :: jsval

datatype event = ConsoleError jsval | ExtractorCalled | FetchCalled request

record marker =
  mk_id :: string
  mk_tag :: string
  mk_end :: "(bool \<times> string option) option"

text \<open>
  A call of \<open>logError\<close> that has an extractor stops at \<open>await getExtraData()\<close> and
  goes on later, in a microtask, when other calls on the boundary may have run. Such a
  call is kept as a \<open>suspended_report\<close>: the tag and the error of the call, and the
  result of the extractor that it is waiting for.
\<close>

record suspended_report =
  sr_tag :: string
  sr_error :: jsval
  sr_awaited :: result

text \<open>
  The state of one \<open>ErrorBoundary\<close> together with the parts of the world it acts on:
  its private fields \<open>sdkKey\<close>, \<open>statsigMetadata\<close> and \<open>seen\<close>, the
  \<open>error_boundary\<close> context of the diagnostics collector (\<open>maxMarkers\<close>,
  \<open>markers\<close>), the trace of events, and the calls of \<open>logError\<close> that are
  suspended.
\<close>

record state =
  sdkKey :: string
  statsigMetadata :: "metadata option"
  seen :: "string set"
  maxMarkers :: nat
  markers :: "marker list"
  events :: "event list"
  suspended :: "suspended_report list"

text \<open>
  What the runtime supplies during a call: the behaviour of the global \<open>fetch\<close> (it
  may throw, or return a promise) and the stack that the engine attaches to an
  \<open>Error\<close> created inside \<open>logError\<close>.
\<close>

record runtime =
  fetch :: "request \<Rightarrow> result completion"
  new_error_stack :: "string option"

text \<open>
  A thunk passed to the boundary (\<open>task\<close>, \<open>recover\<close>, \<open>getExtraData\<close>) is
  represented by the completion of calling it; thunks are taken not to call back into the
  boundary. \<open>getExtraData = None\<close> is an option that is not a function.
\<close>

type_synonym thunk = "result completion"

record capture_options =
  getExtraData :: "thunk option"
  configName :: "string option"

definition ExceptionEndpoint :: string where
  "ExceptionEndpoint = ''https://statsigapi.net/v1/sdk_exception''"

definition MAX_DIAGNOSTICS_MARKERS :: nat where
  "MAX_DIAGNOSTICS_MARKERS = 30"

definition SAMPLING_RATE :: nat where
  "SAMPLING_RATE = 10000"

section \<open>The diagnostics collector\<close>

text \<open>
  Modelled from the spec: the module \<open>utils/Diagnostics\<close> (\<open>setMaxMarkers\<close>,
  \<open>getMarkerCount\<close>, \<open>mark.error_boundary(tag).start\<close> and \<open>.end\<close>) is imported by
  the boundary but is not part of the sources at hand. The spec describes a marker as
  \<open>{markerID, start-time, end-time, success, tag, configName?}\<close> kept in a buffer that
  is bounded by a capacity fixed at session start and append-only. Accordingly \<open>start\<close>
  appends an open marker when the buffer is below capacity and says whether it did, and
  \<open>end\<close> closes the marker with the given id and tag, recording the success flag and
  the config name; closing is not limited by the capacity. \<open>mark.error_boundary(tag)\<close>
  always yields the marker interface, and no operation of the collector throws. Time stamps
  are not modelled.
\<close>

definition Diagnostics_setMaxMarkers :: "state \<Rightarrow> nat \<Rightarrow> state" where
  "Diagnostics_setMaxMarkers s n = s\<lparr>maxMarkers := n\<rparr>"

definition Diagnostics_getMarkerCount :: "state \<Rightarrow> nat" where
  "Diagnostics_getMarkerCount s = length (markers s)"

definition Diagnostics_start :: "state \<Rightarrow> string \<Rightarrow> string \<Rightarrow> state \<times> bool" where
  "Diagnostics_start s tag mid =
     (if length (markers s) < maxMarkers s
      then (s\<lparr>markers := markers s @ [\<lparr>mk_id = mid, mk_tag = tag, mk_end = None\<rparr>]\<rparr>, True)
      else (s, False))"

definition close_marker :: "string \<Rightarrow> string \<Rightarrow> bool \<Rightarrow> string option \<Rightarrow> marker \<Rightarrow> marker" where
  "close_marker tag mid ok cfg m =
     (if mk_id m = mid \<and> mk_tag m = tag then m\<lparr>mk_end := Some (ok, cfg)\<rparr> else m)"

definition Diagnostics_end :: "state \<Rightarrow> string \<Rightarrow> string \<Rightarrow> bool \<Rightarrow> string option \<Rightarrow> state" where
  "Diagnostics_end s tag mid ok cfg = s\<lparr>markers := map (close_marker tag mid ok cfg) (markers s)\<rparr>"

section \<open>The error boundary\<close>

subsection \<open>Constructor and metadata\<close>

text \<open>
  \<open>sampling\<close> is the value of \<open>Math.floor(Math.random() * SAMPLING_RATE)\<close>, a number
  from \<open>0\<close> to \<open>SAMPLING_RATE - 1\<close>.
\<close>

definition setupDiagnostics :: "state \<Rightarrow> nat \<Rightarrow> state" where
  "setupDiagnostics s maxM = Diagnostics_setMaxMarkers s maxM"

definition ErrorBoundary_new :: "string \<Rightarrow> nat \<Rightarrow> state" where
  "ErrorBoundary_new key sampling =
     setupDiagnostics
       \<lparr>sdkKey = key, statsigMetadata = None, seen = {}, maxMarkers = 0, markers = [], events = [],
        suspended = []\<rparr>
       (if sampling = 0 then MAX_DIAGNOSTICS_MARKERS else 0)"

definition setStatsigMetadata :: "state \<Rightarrow> metadata \<Rightarrow> state" where
  "setStatsigMetadata s md = s\<lparr>statsigMetadata := Some md\<rparr>"

subsection \<open>\<open>logError\<close>\<close>

definition getDescription :: "jsval \<Rightarrow> jsval" where
  "getDescription obj =
     (case JSON_stringify obj of
        Normal text \<Rightarrow> text
      | Throw e \<Rightarrow> JStr ''[Statsig] Failed to get string for error.'')"

text \<open>\<open>error ?? Error('[Statsig] Error was empty')\<close>\<close>

definition unwrap :: "runtime \<Rightarrow> jsval \<Rightarrow> jsval" where
  "unwrap rt error =
     (if error = JNull \<or> error = JUndefined
      then JError OtherError ''Error'' ''[Statsig] Error was empty'' (new_error_stack rt)
      else error)"

text \<open>\<open>isError ? unwrapped.name : 'No Name'\<close>\<close>

definition failure_name :: "jsval \<Rightarrow> string" where
  "failure_name unwrapped = (if instanceof_Error unwrapped then error_name unwrapped else ''No Name'')"

text \<open>\<open>isError ? unwrapped.stack : this.getDescription(unwrapped)\<close>\<close>

definition failure_info :: "jsval \<Rightarrow> jsval" where
  "failure_info unwrapped =
     (if instanceof_Error unwrapped then error_stack unwrapped else getDescription unwrapped)"

text \<open>
  The part of \<open>logError\<close> after the extra data has arrived: the deduplication on
  \<open>seen\<close>, the construction of the body and the call of \<open>fetch\<close>. Its completion is
  that of the statements inside the \<open>try\<close> block.
\<close>

definition logError_report ::
  "runtime \<Rightarrow> state \<Rightarrow> string \<Rightarrow> jsval \<Rightarrow> jsval \<Rightarrow> state \<times> result completion" where
  "logError_report rt s tag error extra =
     (let unwrapped = unwrap rt error;
          name = failure_name unwrapped
      in if name \<in> seen s then (s, Normal (Plain JUndefined))
         else
           let s1 = s\<lparr>seen := insert name (seen s)\<rparr>;
               info = failure_info unwrapped;
               md = (case statsigMetadata s1 of None \<Rightarrow> [] | Some m \<Rightarrow> m)
           in case JSON_stringify
                     (JObj [(''tag'', JStr tag),
                            (''exception'', JStr name),
                            (''info'', info),
                            (''statsigMetadata'', meta_obj md),
                            (''extra'', if extra = JNull \<or> extra = JUndefined then JObj [] else extra)]) of
                Throw e \<Rightarrow> (s1, Throw e)
              | Normal text \<Rightarrow>
                  let req = \<lparr>url = ExceptionEndpoint,
                             http_method = ''POST'',
                             headers =
                               [(''STATSIG-API-KEY'', sdkKey s1),
                                (''STATSIG-SDK-TYPE'', js_String (map_of md ''sdkType'')),
                                (''STATSIG-SDK-VERSION'', js_String (map_of md ''sdkVersion'')),
                                (''Content-Type'', ''application/json; charset=UTF-8'')],
                             body = text\<rparr>
                  in (s1\<lparr>events := events s1 @ [FetchCalled req]\<rparr>, fetch rt req))"

text \<open>
  The \<open>try\<close> block of the asynchronous function, up to the point where the call
  returns. Without an extractor there is no \<open>await\<close> and the whole block runs inside
  the call. With an extractor, the extractor is called; if it throws, the block is left;
  otherwise the function is suspended at the \<open>await\<close>, whatever the extractor returned,
  and the rest of the block runs in \<open>logError_resume\<close>.
\<close>

definition lift_completion :: "state \<times> result completion \<Rightarrow> state \<times> result awaited" where
  "lift_completion sc =
     (case snd sc of Normal r \<Rightarrow> (fst sc, Resumed r) | Throw e \<Rightarrow> (fst sc, Raised e))"

definition logError_try ::
  "runtime \<Rightarrow> state \<Rightarrow> string \<Rightarrow> jsval \<Rightarrow> thunk option \<Rightarrow> state \<times> result awaited" where
  "logError_try rt s tag error ged =
     (case ged of
        None \<Rightarrow> lift_completion (logError_report rt s tag error JNull)
      | Some ex \<Rightarrow>
          let s0 = s\<lparr>events := events s @ [ExtractorCalled]\<rparr>
          in case ex of
               Throw e \<Rightarrow> (s0, Raised e)
             | Normal r \<Rightarrow>
                 (s0\<lparr>suspended :=
                       suspended s0 @ [\<lparr>sr_tag = tag, sr_error = error, sr_awaited = r\<rparr>]\<rparr>,
                  Suspended))"

text \<open>
  The asynchronous function as a whole: \<open>catch (_error) { /* noop */ }\<close> turns an
  exception of the block into a normal return of \<open>undefined\<close>; a returned result
  resolves the function's promise (the promise of \<open>fetch\<close> is returned without
  \<open>await\<close>, so it is adopted); while the function is suspended its promise is pending.
\<close>

definition logError_async ::
  "runtime \<Rightarrow> state \<Rightarrow> string \<Rightarrow> jsval \<Rightarrow> thunk option \<Rightarrow> state \<times> promise_state" where
  "logError_async rt s tag error ged =
     (case logError_try rt s tag error ged of
        (s', Raised e) \<Rightarrow> (s', Fulfilled JUndefined)
      | (s', Resumed r) \<Rightarrow> (s', resolve r)
      | (s', Suspended) \<Rightarrow> (s', Pending))"

text \<open>
  \<open>logError\<close>: the function is started and its promise gets \<open>.catch(() => {})\<close>. The
  result is the new state and the promise left behind, which nobody awaits.
\<close>

definition logError ::
  "runtime \<Rightarrow> state \<Rightarrow> string \<Rightarrow> jsval \<Rightarrow> thunk option \<Rightarrow> state \<times> promise_state" where
  "logError rt s tag error ged =
     (case logError_async rt s tag error ged of
        (s', p) \<Rightarrow> promise_catch p (\<lambda>e st. (st, Normal (Plain JUndefined))) s')"

text \<open>
  The rest of a suspended call, run at some later moment on the state as it is then. The
  \<open>i\<close>-th suspended call leaves the list and its \<open>await\<close> delivers: a value, with
  which the deduplication check, the body and \<open>fetch\<close> follow; or the reason of a
  rejection, which the \<open>catch\<close> clause swallows. When the awaited promise never settles
  the call stays suspended. As in \<open>logError\<close>, the result is the new state and the
  promise that the call has left behind, after \<open>.catch(() => {})\<close>.
\<close>

definition remove_nth :: "nat \<Rightarrow> 'a list \<Rightarrow> 'a list" where
  "remove_nth i xs = take i xs @ drop (Suc i) xs"

definition logError_resume_try :: "runtime \<Rightarrow> state \<Rightarrow> nat \<Rightarrow> state \<times> result awaited" where
  "logError_resume_try rt s i =
     (if i < length (suspended s)
      then
        let sr = suspended s ! i;
            s0 = s\<lparr>suspended := remove_nth i (suspended s)\<rparr>
        in case await (sr_awaited sr) of
             Resumed extra \<Rightarrow> lift_completion (logError_report rt s0 (sr_tag sr) (sr_error sr) extra)
           | Raised e \<Rightarrow> (s0, Raised e)
           | Suspended \<Rightarrow> (s, Suspended)
      else (s, Suspended))"

definition logError_resume :: "runtime \<Rightarrow> state \<Rightarrow> nat \<Rightarrow> state \<times> promise_state" where
  "logError_resume rt s i =
     (case logError_resume_try rt s i of
        (s', Raised e) \<Rightarrow> promise_catch (Fulfilled JUndefined) (\<lambda>e st. (st, Normal (Plain JUndefined))) s'
      | (s', Resumed r) \<Rightarrow> promise_catch (resolve r) (\<lambda>e st. (st, Normal (Plain JUndefined))) s'
      | (s', Suspended) \<Rightarrow> promise_catch Pending (\<lambda>e st. (st, Normal (Plain JUndefined))) s')"

subsection \<open>Markers\<close>

definition beginMarker :: "state \<Rightarrow> string \<Rightarrow> state \<times> string option" where
  "beginMarker s tag =
     (let count = Diagnostics_getMarkerCount s;
          markerID = tag @ ''_'' @ string_of_nat count;
          added = Diagnostics_start s tag markerID
      in (fst added, if snd added then Some markerID else None))"

definition endMarker :: "state \<Rightarrow> string \<Rightarrow> bool \<Rightarrow> string option \<Rightarrow> string option \<Rightarrow> state" where
  "endMarker s tag wasSuccessful markerID cfg =
     (case markerID of
        None \<Rightarrow> s
      | Some mid \<Rightarrow> if mid = [] then s else Diagnostics_end s tag mid wasSuccessful cfg)"

subsection \<open>\<open>onCaught\<close>, \<open>capture\<close> and \<open>swallow\<close>\<close>

definition is_contract_violation :: "jsval \<Rightarrow> bool" where
  "is_contract_violation error =
     (instanceof_kind error StatsigUninitializedError \<or> instanceof_kind error StatsigInvalidArgumentError)"

definition onCaught ::
  "runtime \<Rightarrow> state \<Rightarrow> string \<Rightarrow> jsval \<Rightarrow> thunk \<Rightarrow> thunk option \<Rightarrow> state \<times> result completion" where
  "onCaught rt s tag error recover ged =
     (if is_contract_violation error then (s, Throw error)
      else
        let s1 = s\<lparr>events := events s @ [ConsoleError error]\<rparr>;
            s2 = fst (logError rt s1 tag error ged)
        in (s2, recover))"

text \<open>
  \<open>capture\<close>. In the promise branch the two handlers share the local variable
  \<open>wasSuccessful\<close>, so they run on a pair of the state and that variable. The
  \<open>then\<close> handler calls \<open>endMarker\<close> with three arguments: no config name.
\<close>

definition capture ::
  "runtime \<Rightarrow> state \<Rightarrow> string \<Rightarrow> thunk \<Rightarrow> thunk \<Rightarrow> capture_options \<Rightarrow> state \<times> result completion" where
  "capture rt s tag task recover opts =
     (let begun = beginMarker s tag;
          s1 = fst begun;
          markerID = snd begun
      in case task of
           Throw error \<Rightarrow>
             onCaught rt (endMarker s1 tag False markerID (configName opts)) tag error recover
               (getExtraData opts)
         | Normal (Plain v) \<Rightarrow>
             (endMarker s1 tag True markerID (configName opts), Normal (Plain v))
         | Normal (Promise p) \<Rightarrow>
             let caught =
                   promise_catch p
                     (\<lambda>e sw. case onCaught rt (fst sw) tag e recover (getExtraData opts) of
                                (s', c) \<Rightarrow> ((s', False), c))
                     (s1, True);
                 ended =
                   promise_then (snd caught)
                     (\<lambda>v sw. ((endMarker (fst sw) tag (snd sw) markerID None, snd sw),
                              Normal (Plain v)))
                     (fst caught)
             in (fst (fst ended), Normal (Promise (snd ended))))"

text \<open>\<open>swallow\<close> calls \<open>capture\<close> and has no \<open>return\<close>: its value is \<open>undefined\<close>.\<close>

definition swallow ::
  "runtime \<Rightarrow> state \<Rightarrow> string \<Rightarrow> thunk \<Rightarrow> capture_options \<Rightarrow> state \<times> result completion" where
  "swallow rt s tag task opts =
     (case capture rt s tag task (Normal (Plain JUndefined)) opts of
        (s', Throw e) \<Rightarrow> (s', Throw e)
      | (s', Normal r) \<Rightarrow> (s', Normal (Plain JUndefined)))"

text \<open>
  The spec's description of \<open>swallow\<close>: the form of \<open>capture\<close> whose recovery value is
  always \<open>undefined\<close>.
\<close>

definition swallow_spec ::
  "runtime \<Rightarrow> state \<Rightarrow> string \<Rightarrow> thunk \<Rightarrow> capture_options \<Rightarrow> state \<times> result completion" where
  "swallow_spec rt s tag task opts = capture rt s tag task (Normal (Plain JUndefined)) opts"

section \<open>Sessions and observations\<close>

text \<open>
  A session is a sequence of steps on one boundary, each with the behaviour of the runtime
  during that step: a call of a public operation, or the resumption of one of the
  suspended calls of \<open>logError\<close>, in any order. Steps do not overlap, following the
  single-writer execution model of the client. For a task that returns a promise,
  \<open>capture\<close> comprises the handlers it attaches to the promise; as \<open>beginMarker\<close>
  acts on the markers only, such a step stands, as far as reports and \<open>seen\<close> are
  concerned, for the moment at which the handlers run.
\<close>

datatype op =
    Capture string thunk thunk capture_options
  | Swallow string thunk capture_options
  | LogError string jsval "thunk option"
  | SetStatsigMetadata metadata
  | Resume nat

fun exec :: "runtime \<Rightarrow> op \<Rightarrow> state \<Rightarrow> state" where
  "exec rt (Capture tag task recover opts) s = fst (capture rt s tag task recover opts)"
| "exec rt (Swallow tag task opts) s = fst (swallow rt s tag task opts)"
| "exec rt (LogError tag error ged) s = fst (logError rt s tag error ged)"
| "exec rt (SetStatsigMetadata md) s = setStatsigMetadata s md"
| "exec rt (Resume i) s = fst (logError_resume rt s i)"

fun run :: "(runtime \<times> op) list \<Rightarrow> state \<Rightarrow> state" where
  "run [] s = s"
| "run (c # cs) s = run cs (exec (fst c) (snd c) s)"

text \<open>The requests sent to the exception endpoint, in order, and the calls of the extractor.\<close>

fun reports :: "event list \<Rightarrow> request list" where
  "reports [] = []"
| "reports (FetchCalled r # es) = r # reports es"
| "reports (e # es) = reports es"

fun extractor_calls :: "event list \<Rightarrow> nat" where
  "extractor_calls [] = 0"
| "extractor_calls (ExtractorCalled # es) = Suc (extractor_calls es)"
| "extractor_calls (e # es) = extractor_calls es"

text \<open>The fields of a report's body, and its \<open>exception\<close> field.\<close>

fun body_keys :: "jsval \<Rightarrow> string list" where
  "body_keys (JsonOf (JObj kvs)) = map fst kvs"
| "body_keys v = []"

fun body_field :: "jsval \<Rightarrow> string \<Rightarrow> jsval option" where
  "body_field (JsonOf (JObj kvs)) k = map_of kvs k"
| "body_field v k = None"

definition reported_exception :: "request \<Rightarrow> jsval option" where
  "reported_exception r = body_field (body r) ''exception''"

definition reports_named :: "string \<Rightarrow> event list \<Rightarrow> request list" where
  "reports_named n es = filter (\<lambda>r. reported_exception r = Some (JStr n)) (reports es)"

text \<open>The failure of a task, if it fails: a thrown value or the reason of a rejection.\<close>

fun task_failure :: "thunk \<Rightarrow> jsval option" where
  "task_failure (Throw e) = Some e"
| "task_failure (Normal (Promise (Rejected e))) = Some e"
| "task_failure t = None"

subsection \<open>The report the spec describes\<close>

text \<open>
  The exception report as the spec words it: one \<open>POST\<close> to the exception endpoint with
  the headers \<open>STATSIG-API-KEY\<close>, \<open>STATSIG-SDK-TYPE\<close> and \<open>STATSIG-SDK-VERSION\<close>
  and, as body, the JSON text of \<open>{tag, exception, info, statsigMetadata, extra}\<close>,
  where \<open>extra\<close> defaults to an empty object.
\<close>

definition report_extra :: "jsval \<Rightarrow> jsval" where
  "report_extra extra = (if extra = JNull \<or> extra = JUndefined then JObj [] else extra)"

definition report_request :: "runtime \<Rightarrow> state \<Rightarrow> string \<Rightarrow> jsval \<Rightarrow> jsval \<Rightarrow> request" where
  "report_request rt s tag error extra =
     \<lparr>url = ExceptionEndpoint,
      http_method = ''POST'',
      headers =
        [(''STATSIG-API-KEY'', sdkKey s),
         (''STATSIG-SDK-TYPE'', js_String (map_of (case statsigMetadata s of None \<Rightarrow> [] | Some m \<Rightarrow> m) ''sdkType'')),
         (''STATSIG-SDK-VERSION'', js_String (map_of (case statsigMetadata s of None \<Rightarrow> [] | Some m \<Rightarrow> m) ''sdkVersion'')),
         (''Content-Type'', ''application/json; charset=UTF-8'')],
      body = JsonOf (json_value (JObj [(''tag'', JStr tag),
                (''exception'', JStr (failure_name (unwrap rt error))),
                (''info'', failure_info (unwrap rt error)),
                (''statsigMetadata'', meta_obj (case statsigMetadata s of None \<Rightarrow> [] | Some m \<Rightarrow> m)),
                (''extra'', report_extra extra)]))\<rparr>"

text \<open>
  The deduplication invariant: a name that is not in \<open>seen\<close> has no report, and no name
  has more than one.
\<close>

definition report_once :: "state \<Rightarrow> bool" where
  "report_once s = (\<forall>n. length (reports_named n (events s)) \<le> (if n \<in> seen s then 1 else 0))"

subsection \<open>Concrete scenarios\<close>

text \<open>
  Runtimes, errors, options and extractors for the evaluations below: a runtime whose
  \<open>fetch\<close> succeeds and one whose \<open>fetch\<close> rejects, a contract violation and an
  unexpected error with and without a stack, metadata whose \<open>sdkVersion\<close> is the
  number 4.2, and the state of a session in which a \<open>TypeError\<close> has already been
  reported.
\<close>

definition quiet_runtime :: runtime where
  "quiet_runtime =
     \<lparr>fetch = (\<lambda>r. Normal (Promise (Fulfilled JUndefined))),
      new_error_stack = Some ''Error: [Statsig] Error was empty''\<rparr>"

definition failing_runtime :: runtime where
  "failing_runtime =
     \<lparr>fetch = (\<lambda>r. Normal (Promise (Rejected (JError OtherError ''TypeError'' ''Failed to fetch'' None)))),
      new_error_stack = None\<rparr>"

definition uninitialized_error :: jsval where
  "uninitialized_error =
     JError StatsigUninitializedError ''Error'' ''Call and wait for initialize() to finish first.'' None"

definition type_error :: jsval where
  "type_error =
     JError OtherError ''TypeError'' ''x is not a function'' (Some ''TypeError: x is not a function'')"

definition no_options :: capture_options where
  "no_options = \<lparr>getExtraData = None, configName = None\<rparr>"

definition working_extractor :: thunk where
  "working_extractor = Normal (Promise (Fulfilled (JObj [(''configName'', JStr ''a_config'')])))"

definition rejecting_extractor :: thunk where
  "rejecting_extractor = Normal (Promise (Rejected (JStr ''storage unavailable'')))"

definition after_first_failure :: state where
  "after_first_failure =
     fst (logError quiet_runtime (ErrorBoundary_new ''client-key'' 1) ''checkGate'' type_error None)"

definition config_options :: capture_options where
  "config_options = \<lparr>getExtraData = None, configName = Some ''a_config''\<rparr>"

definition stackless_error :: jsval where
  "stackless_error = JError OtherError ''TypeError'' ''x is not a function'' None"

definition client_metadata :: metadata where
  "client_metadata = [(''sdkType'', MStr ''js-client''), (''sdkVersion'', MNum (Finite False 42 1))]"

section \<open>Frame properties of the markers\<close>

lemma json_omitted_simps:
  "json_omitted JUndefined" "json_omitted JFunction" "\<not> json_omitted JNull"
  "\<not> json_omitted (JBool b)" "\<not> json_omitted (JNum x)" "\<not> json_omitted (JStr t)"
  "\<not> json_omitted (JObj kvs)" "\<not> json_omitted (JError k n m st)" "\<not> json_omitted JCyclic"
  "\<not> json_omitted (JsonOf v)"
  by (simp_all add: json_omitted_def)

lemma beginMarker_frame:
  "events (fst (beginMarker s tag)) = events s"
  "seen (fst (beginMarker s tag)) = seen s"
  "maxMarkers (fst (beginMarker s tag)) = maxMarkers s"
  "sdkKey (fst (beginMarker s tag)) = sdkKey s"
  "statsigMetadata (fst (beginMarker s tag)) = statsigMetadata s"
  by (simp_all add: beginMarker_def Diagnostics_start_def Diagnostics_getMarkerCount_def Let_def)

lemma endMarker_frame:
  "events (endMarker s tag ok mid cfg) = events s"
  "seen (endMarker s tag ok mid cfg) = seen s"
  "maxMarkers (endMarker s tag ok mid cfg) = maxMarkers s"
  "sdkKey (endMarker s tag ok mid cfg) = sdkKey s"
  "statsigMetadata (endMarker s tag ok mid cfg) = statsigMetadata s"
  by (simp_all add: endMarker_def Diagnostics_end_def split: option.splits)

lemma onCaught_contract:
  "is_contract_violation e \<Longrightarrow> onCaught rt s tag e recover ged = (s, Throw e)"
  by (simp add: onCaught_def)

lemma onCaught_unexpected:
  "\<not> is_contract_violation e \<Longrightarrow> snd (onCaught rt s tag e recover ged) = recover"
  by (simp add: onCaught_def Let_def)

section \<open>Contract violations pass through \<open>capture\<close>\<close>

text \<open>
  Claim C1. When the task throws, or returns a promise that rejects with, a
  \<open>StatsigUninitializedError\<close> or a \<open>StatsigInvalidArgumentError\<close>, \<open>capture\<close> hands
  that very error on: it throws it in the synchronous case and returns a promise rejected
  with it in the asynchronous case, whatever \<open>recover\<close> would give. Nothing is written
  to the console, the extractor is not called, no request is sent and \<open>seen\<close> is
  unchanged.
\<close>

theorem capture_rethrows_contract_violation:
  assumes "is_contract_violation e"
  shows "snd (capture rt s tag (Throw e) recover opts) = Throw e \<and>
         events (fst (capture rt s tag (Throw e) recover opts)) = events s \<and>
         seen (fst (capture rt s tag (Throw e) recover opts)) = seen s \<and>
         snd (capture rt s tag (Normal (Promise (Rejected e))) recover opts)
           = Normal (Promise (Rejected e)) \<and>
         events (fst (capture rt s tag (Normal (Promise (Rejected e))) recover opts)) = events s \<and>
         seen (fst (capture rt s tag (Normal (Promise (Rejected e))) recover opts)) = seen s"
proof -
  have sync: "capture rt s tag (Throw e) recover opts
      = (endMarker (fst (beginMarker s tag)) tag False (snd (beginMarker s tag)) (configName opts),
         Throw e)"
    using assms by (simp add: capture_def Let_def onCaught_contract)
  have async: "capture rt s tag (Normal (Promise (Rejected e))) recover opts
      = (fst (beginMarker s tag), Normal (Promise (Rejected e)))"
    using assms by (simp add: capture_def Let_def onCaught_contract settle_def)
  show ?thesis
    by (simp add: sync async beginMarker_frame endMarker_frame)
qed

theorem capture_rethrows_contract_violation_witness:
  "is_contract_violation uninitialized_error \<and>
   snd (capture quiet_runtime (ErrorBoundary_new ''client-key'' 0) ''checkGate''
          (Throw uninitialized_error) (Normal (Plain (JBool False))) no_options)
     = Throw uninitialized_error \<and>
   snd (capture quiet_runtime (ErrorBoundary_new ''client-key'' 0) ''updateUser''
          (Normal (Promise (Rejected uninitialized_error))) (Normal (Plain JUndefined)) no_options)
     = Normal (Promise (Rejected uninitialized_error))"
proof -
  have h: "is_contract_violation uninitialized_error"
    by (simp add: is_contract_violation_def uninitialized_error_def)
  show ?thesis
    using h capture_rethrows_contract_violation [OF h] by simp
qed

section \<open>Results and recovery\<close>

text \<open>
  Claim C2. When the task returns a plain value, \<open>capture\<close> returns that value; when it
  returns a promise that is fulfilled, \<open>capture\<close> returns a promise fulfilled with the
  same value. When the task throws, or its promise rejects with, an error that is not one
  of the two contract-violation kinds, \<open>capture\<close> does not throw or reject with that
  error: it returns the value \<open>r\<close> of \<open>recover()\<close>, respectively a promise resolved
  with \<open>r\<close>.
\<close>

theorem capture_returns_result_or_recovers:
  "snd (capture rt s tag (Normal (Plain v)) recover opts) = Normal (Plain v) \<and>
   snd (capture rt s tag (Normal (Promise (Fulfilled v))) recover opts)
     = Normal (Promise (Fulfilled v)) \<and>
   (\<not> is_contract_violation e \<longrightarrow>
      snd (capture rt s tag (Throw e) (Normal r) opts) = Normal r \<and>
      snd (capture rt s tag (Normal (Promise (Rejected e))) (Normal r) opts)
        = Normal (Promise (resolve r)))"
proof -
  have a: "snd (capture rt s tag (Normal (Plain v)) recover opts) = Normal (Plain v)"
    by (simp add: capture_def Let_def)
  have b: "snd (capture rt s tag (Normal (Promise (Fulfilled v))) recover opts)
     = Normal (Promise (Fulfilled v))"
    by (simp add: capture_def Let_def settle_def)
  have c: "snd (capture rt s tag (Throw e) (Normal r) opts) = Normal r"
    if "\<not> is_contract_violation e"
    using that by (simp add: capture_def Let_def onCaught_unexpected)
  have d: "snd (capture rt s tag (Normal (Promise (Rejected e))) (Normal r) opts)
        = Normal (Promise (resolve r))"
    if "\<not> is_contract_violation e"
    using that
    by (cases r; cases "resolve r")
       (simp_all add: capture_def Let_def onCaught_def settle_def split: prod.splits)
  show ?thesis using a b c d by blast
qed

theorem capture_returns_result_or_recovers_witness:
  "\<not> is_contract_violation type_error \<and>
   snd (capture failing_runtime (ErrorBoundary_new ''client-key'' 1) ''checkGate''
          (Throw type_error) (Normal (Plain (JBool False))) no_options)
     = Normal (Plain (JBool False)) \<and>
   snd (capture failing_runtime (ErrorBoundary_new ''client-key'' 1) ''updateUser''
          (Normal (Promise (Rejected type_error))) (Normal (Plain JUndefined)) no_options)
     = Normal (Promise (Fulfilled JUndefined))"
proof -
  have h: "\<not> is_contract_violation type_error"
    by (simp add: is_contract_violation_def type_error_def)
  show ?thesis
    using h capture_returns_result_or_recovers
              [of failing_runtime "ErrorBoundary_new ''client-key'' 1" _ _ _ no_options type_error]
    by simp
qed

section \<open>What \<open>logError\<close> and \<open>capture\<close> do to the state\<close>

lemma serializable_error_stack: "serializable (error_stack u)"
  by (cases u rule: error_stack.cases) simp_all

lemma serializable_getDescription: "serializable (getDescription u)"
  by (simp add: getDescription_def JSON_stringify_def)

lemma serializable_failure_info: "serializable (failure_info u)"
  by (simp add: failure_info_def serializable_error_stack serializable_getDescription)

lemma serializable_meta_to_js: "serializable (meta_to_js v)"
  by (cases v) simp_all

lemma serializable_meta_obj: "serializable (meta_obj md)"
  by (induction md) (simp_all add: meta_obj_def serializable_meta_to_js)

lemma logError_report_seen:
  "failure_name (unwrap rt error) \<in> seen s \<Longrightarrow>
   logError_report rt s tag error extra = (s, Normal (Plain JUndefined))"
  by (simp add: logError_report_def Let_def)

lemma logError_report_sent:
  assumes "failure_name (unwrap rt error) \<notin> seen s" "serializable (report_extra extra)"
  shows "logError_report rt s tag error extra =
     (s\<lparr>seen := insert (failure_name (unwrap rt error)) (seen s),
        events := events s @ [FetchCalled (report_request rt s tag error extra)]\<rparr>,
      fetch rt (report_request rt s tag error extra))"
  using assms
  by (simp add: logError_report_def Let_def JSON_stringify_def json_omitted_def report_request_def
      report_extra_def serializable_failure_info serializable_meta_obj)

lemma logError_report_unsent:
  assumes "failure_name (unwrap rt error) \<notin> seen s" "\<not> serializable (report_extra extra)"
  shows "\<exists>e. logError_report rt s tag error extra =
     (s\<lparr>seen := insert (failure_name (unwrap rt error)) (seen s)\<rparr>, Throw e)"
  using assms
  by (simp add: logError_report_def Let_def JSON_stringify_def json_omitted_def report_extra_def
      serializable_failure_info serializable_meta_obj)

text \<open>The three ways the deduplication check and the report can go.\<close>

lemma logError_report_cases:
  obtains
    (dropped) "failure_name (unwrap rt error) \<in> seen s"
      "fst (logError_report rt s tag error extra) = s"
  | (sent) "failure_name (unwrap rt error) \<notin> seen s" "serializable (report_extra extra)"
      "fst (logError_report rt s tag error extra) =
         s\<lparr>seen := insert (failure_name (unwrap rt error)) (seen s),
           events := events s @ [FetchCalled (report_request rt s tag error extra)]\<rparr>"
  | (unsent) "failure_name (unwrap rt error) \<notin> seen s" "\<not> serializable (report_extra extra)"
      "fst (logError_report rt s tag error extra) =
         s\<lparr>seen := insert (failure_name (unwrap rt error)) (seen s)\<rparr>"
proof (cases "failure_name (unwrap rt error) \<in> seen s")
  case True
  then show ?thesis using dropped by (simp add: logError_report_seen)
next
  case False
  show ?thesis
  proof (cases "serializable (report_extra extra)")
    case True
    then show ?thesis using sent False by (simp add: logError_report_sent)
  next
    case nser: False
    obtain e where "logError_report rt s tag error extra =
        (s\<lparr>seen := insert (failure_name (unwrap rt error)) (seen s)\<rparr>, Throw e)"
      using logError_report_unsent [OF False nser] by blast
    then show ?thesis using unsent False nser by simp
  qed
qed

lemma promise_catch_noop_state:
  "fst (promise_catch p (\<lambda>e st. (st, Normal (Plain JUndefined))) s) = s"
  by (cases p) (simp_all add: settle_def)

lemma promise_catch_noop_settled:
  "snd (promise_catch p (\<lambda>e st. (st, Normal (Plain JUndefined))) s) \<noteq> Rejected x"
  by (cases p) (simp_all add: settle_def)

lemma logError_state:
  "fst (logError rt s tag error ged) =
     (case ged of
        None \<Rightarrow> fst (logError_report rt s tag error JNull)
      | Some ex \<Rightarrow>
          (case ex of
             Throw e \<Rightarrow> s\<lparr>events := events s @ [ExtractorCalled]\<rparr>
           | Normal r \<Rightarrow>
               s\<lparr>events := events s @ [ExtractorCalled],
                 suspended := suspended s @ [\<lparr>sr_tag = tag, sr_error = error, sr_awaited = r\<rparr>]\<rparr>))"
proof (cases ged)
  case None
  then show ?thesis
    by (simp add: logError_def logError_async_def logError_try_def lift_completion_def
        promise_catch_noop_state split: prod.splits awaited.splits completion.splits)
next
  case (Some ex)
  then show ?thesis
    by (cases ex)
       (simp_all add: logError_def logError_async_def logError_try_def promise_catch_noop_state
          Let_def)
qed

lemma logError_resume_state:
  "fst (logError_resume rt s i) =
     (if i < length (suspended s)
      then
        (case await (sr_awaited (suspended s ! i)) of
           Resumed extra \<Rightarrow>
             fst (logError_report rt (s\<lparr>suspended := remove_nth i (suspended s)\<rparr>)
                    (sr_tag (suspended s ! i)) (sr_error (suspended s ! i)) extra)
         | Raised e \<Rightarrow> s\<lparr>suspended := remove_nth i (suspended s)\<rparr>
         | Suspended \<Rightarrow> s)
      else s)"
proof (cases "i < length (suspended s)")
  case False
  then show ?thesis
    by (simp add: logError_resume_def logError_resume_try_def)
next
  case True
  then show ?thesis
    by (cases "await (sr_awaited (suspended s ! i))")
       (simp_all add: logError_resume_def logError_resume_try_def lift_completion_def
          promise_catch_noop_state Let_def split: prod.splits completion.splits)
qed

lemma logError_never_rejects: "snd (logError rt s tag error ged) \<noteq> Rejected x"
  by (simp add: logError_def promise_catch_noop_settled split: prod.splits)

lemma logError_resume_never_rejects: "snd (logError_resume rt s i) \<noteq> Rejected x"
  by (simp add: logError_resume_def promise_catch_noop_settled split: prod.splits awaited.splits)

lemma capture_completion:
  "snd (capture rt s tag task recover opts) =
     (case task of
        Throw e \<Rightarrow> if is_contract_violation e then Throw e else recover
      | Normal (Plain v) \<Rightarrow> Normal (Plain v)
      | Normal (Promise Pending) \<Rightarrow> Normal (Promise Pending)
      | Normal (Promise (Fulfilled v)) \<Rightarrow> Normal (Promise (Fulfilled v))
      | Normal (Promise (Rejected e)) \<Rightarrow>
          Normal (Promise (if is_contract_violation e then Rejected e
                           else (case recover of Throw x \<Rightarrow> Rejected x | Normal r \<Rightarrow> resolve r))))"
proof (cases task)
  case (Throw e)
  then show ?thesis by (simp add: capture_def Let_def onCaught_def)
next
  case (Normal res)
  show ?thesis
  proof (cases res)
    case (Plain v)
    then show ?thesis using Normal by (simp add: capture_def Let_def)
  next
    case (Promise p)
    show ?thesis
    proof (cases p)
      case (Fulfilled v)
      then show ?thesis using Normal Promise by (simp add: capture_def Let_def settle_def)
    next
      case (Rejected e)
      show ?thesis
      proof (cases "is_contract_violation e")
        case True
        then show ?thesis using Normal Promise Rejected
          by (simp add: capture_def Let_def settle_def onCaught_def)
      next
        case False
        show ?thesis
        proof (cases recover)
          case (Throw x)
          then show ?thesis using Normal Promise Rejected False
            by (simp add: capture_def Let_def settle_def onCaught_def)
        next
          case Nr: (Normal r)
          then show ?thesis using Normal Promise Rejected False
            by (cases "resolve r") (simp_all add: capture_def Let_def settle_def onCaught_def)
        qed
      qed
    next
      case Pending
      then show ?thesis using Normal Promise by (simp add: capture_def Let_def)
    qed
  qed
qed

section \<open>Reporting never disturbs the caller\<close>

text \<open>
  Claim C9. \<open>logError\<close> leaves behind a promise that is never rejected, neither when
  the call returns nor when a suspended call is resumed, whatever the error value
  (\<open>null\<close> and \<open>undefined\<close> included), the extractor (absent, throwing, rejecting,
  never settling), the serialisability of the error or of the extra data, and the
  behaviour of \<open>fetch\<close>. Being the call of an asynchronous function followed by
  \<open>.catch\<close>, it has no synchronous failure either: what \<open>capture\<close> hands to its caller
  is the same for every runtime, every boundary state and every option, so the reporting
  path has no influence on it.
\<close>

theorem logError_never_fails_its_caller:
  "(\<forall>x. snd (logError rt s tag error ged) \<noteq> Rejected x) \<and>
   snd (capture rt s tag task recover opts) = snd (capture rt' s' tag' task recover opts') \<and>
   (\<forall>x. snd (logError_resume rt s i) \<noteq> Rejected x)"
  by (simp add: logError_never_rejects logError_resume_never_rejects capture_completion)

lemmas report_defs =
  logError_def logError_async_def logError_try_def logError_report_def lift_completion_def
  logError_resume_def logError_resume_try_def remove_nth_def
  unwrap_def failure_name_def failure_info_def getDescription_def JSON_stringify_def
  json_omitted_def meta_obj_def ExceptionEndpoint_def

lemmas new_defs =
  ErrorBoundary_new_def setupDiagnostics_def Diagnostics_setMaxMarkers_def
  MAX_DIAGNOSTICS_MARKERS_def

theorem logError_never_fails_its_caller_witness:
  "snd (logError_resume failing_runtime
          (fst (logError failing_runtime (ErrorBoundary_new ''client-key'' 1) ''checkGate'' JCyclic
                  (Some (Normal (Promise (Rejected JNull)))))) 0) = Fulfilled JUndefined \<and>
   snd (logError failing_runtime (ErrorBoundary_new ''client-key'' 1) ''checkGate'' JNull None)
     = Fulfilled JUndefined \<and>
   snd (logError failing_runtime (ErrorBoundary_new ''client-key'' 1) ''checkGate'' JCyclic
          (Some (Throw JUndefined))) \<noteq> Rejected JUndefined"
  using logError_never_fails_its_caller
          [of failing_runtime "ErrorBoundary_new ''client-key'' 1" "''checkGate''" JCyclic
              "Some (Throw JUndefined)"]
  by (simp add: report_defs new_defs failing_runtime_def settle_def Let_def)

lemma onCaught_state:
  "fst (onCaught rt s tag e recover ged) =
     (if is_contract_violation e then s
      else fst (logError rt (s\<lparr>events := events s @ [ConsoleError e]\<rparr>) tag e ged))"
  by (simp add: onCaught_def Let_def)

lemma capture_state:
  "fst (capture rt s tag task recover opts) =
     (case task of
        Throw e \<Rightarrow>
          fst (onCaught rt (endMarker (fst (beginMarker s tag)) tag False (snd (beginMarker s tag))
                 (configName opts)) tag e recover (getExtraData opts))
      | Normal (Plain v) \<Rightarrow>
          endMarker (fst (beginMarker s tag)) tag True (snd (beginMarker s tag)) (configName opts)
      | Normal (Promise Pending) \<Rightarrow> fst (beginMarker s tag)
      | Normal (Promise (Fulfilled v)) \<Rightarrow>
          endMarker (fst (beginMarker s tag)) tag True (snd (beginMarker s tag)) None
      | Normal (Promise (Rejected e)) \<Rightarrow>
          (case snd (capture rt s tag task recover opts) of
             Normal (Promise (Fulfilled v)) \<Rightarrow>
               endMarker (fst (onCaught rt (fst (beginMarker s tag)) tag e recover (getExtraData opts)))
                 tag False (snd (beginMarker s tag)) None
           | c \<Rightarrow> fst (onCaught rt (fst (beginMarker s tag)) tag e recover (getExtraData opts))))"
proof (cases task)
  case (Throw e)
  then show ?thesis by (simp add: capture_def Let_def)
next
  case (Normal res)
  show ?thesis
  proof (cases res)
    case (Plain v)
    then show ?thesis using Normal by (simp add: capture_def Let_def)
  next
    case (Promise p)
    show ?thesis
    proof (cases p)
      case (Fulfilled v)
      then show ?thesis using Normal Promise by (simp add: capture_def Let_def settle_def)
    next
      case (Rejected e)
      obtain s2 c where oc: "onCaught rt (fst (beginMarker s tag)) tag e recover (getExtraData opts) = (s2, c)"
        by (cases "onCaught rt (fst (beginMarker s tag)) tag e recover (getExtraData opts)")
      show ?thesis
      proof (cases c)
        case (Throw x)
        then show ?thesis using Normal Promise Rejected oc
          by (simp add: capture_def Let_def settle_def)
      next
        case Nr: (Normal r)
        then show ?thesis using Normal Promise Rejected oc
          by (cases "resolve r") (simp_all add: capture_def Let_def settle_def)
      qed
    next
      case Pending
      then show ?thesis using Normal Promise by (simp add: capture_def Let_def)
    qed
  qed
qed

lemma swallow_state: "fst (swallow rt s tag task opts) = fst (capture rt s tag task (Normal (Plain JUndefined)) opts)"
  by (simp add: swallow_def split: prod.splits completion.splits)

lemma logError_report_maxMarkers:
  "maxMarkers (fst (logError_report rt s tag error extra)) = maxMarkers s"
  by (simp add: logError_report_def Let_def split: completion.splits)

lemma logError_maxMarkers: "maxMarkers (fst (logError rt s tag error ged)) = maxMarkers s"
  by (simp add: logError_state logError_report_maxMarkers split: option.splits completion.splits)

lemma logError_resume_maxMarkers: "maxMarkers (fst (logError_resume rt s i)) = maxMarkers s"
  by (simp add: logError_resume_state logError_report_maxMarkers split: awaited.splits)

lemma onCaught_maxMarkers: "maxMarkers (fst (onCaught rt s tag e recover ged)) = maxMarkers s"
  by (simp add: onCaught_state logError_maxMarkers)

lemma capture_maxMarkers: "maxMarkers (fst (capture rt s tag task recover opts)) = maxMarkers s"
  by (simp add: capture_state onCaught_maxMarkers endMarker_frame beginMarker_frame
      split: completion.splits result.splits promise_state.splits)

lemma exec_maxMarkers: "maxMarkers (exec rt c s) = maxMarkers s"
  by (cases c)
     (simp_all add: capture_maxMarkers swallow_state logError_maxMarkers
        logError_resume_maxMarkers setStatsigMetadata_def)

lemma run_maxMarkers: "maxMarkers (run cs s) = maxMarkers s"
  by (induction cs arbitrary: s) (simp_all add: exec_maxMarkers)

section \<open>The marker capacity\<close>

text \<open>
  Claim C6. The constructor sets the marker capacity of the \<open>error_boundary\<close> context
  to 30 when the session is sampled in (the sampling draw is 0) and to 0 otherwise, and no
  sequence of later steps on the boundary (\<open>capture\<close>, \<open>swallow\<close>, \<open>logError\<close>,
  \<open>setStatsigMetadata\<close>, the resumption of a suspended \<open>logError\<close>) changes it.
\<close>

theorem marker_capacity_fixed_by_constructor:
  "maxMarkers (ErrorBoundary_new key sampling) = (if sampling = 0 then 30 else 0) \<and>
   maxMarkers (run cs (ErrorBoundary_new key sampling)) = maxMarkers (ErrorBoundary_new key sampling)"
  by (simp add: run_maxMarkers ErrorBoundary_new_def setupDiagnostics_def
      Diagnostics_setMaxMarkers_def MAX_DIAGNOSTICS_MARKERS_def)

section \<open>Reports, deduplication and the extractor\<close>

lemma reports_append: "reports (xs @ ys) = reports xs @ reports ys"
  by (induction xs rule: reports.induct) simp_all

lemma extractor_calls_append: "extractor_calls (xs @ ys) = extractor_calls xs + extractor_calls ys"
  by (induction xs rule: extractor_calls.induct) simp_all

lemma reported_exception_request:
  "reported_exception (report_request rt s tag error extra) = Some (JStr (failure_name (unwrap rt error)))"
  by (simp add: reported_exception_def report_request_def json_omitted_simps)

lemma report_once_cong:
  "reports (events s') = reports (events s) \<Longrightarrow> seen s' = seen s \<Longrightarrow> report_once s' = report_once s"
  by (simp add: report_once_def reports_named_def)

subsection \<open>The deduplication check and the report\<close>


lemma logError_report_silent_when_seen:
  "failure_name (unwrap rt error) \<in> seen s \<Longrightarrow>
   reports (events (fst (logError_report rt s tag error extra))) = reports (events s)"
  by (cases rule: logError_report_cases [of rt error s tag extra]) simp_all


lemma logError_report_sends:
  assumes "failure_name (unwrap rt error) \<notin> seen s" "serializable (report_extra extra)"
  shows "reports (events (fst (logError_report rt s tag error extra)))
           = reports (events s) @ [report_request rt s tag error extra] \<and>
         failure_name (unwrap rt error) \<in> seen (fst (logError_report rt s tag error extra))"
  using assms
  by (cases rule: logError_report_cases [of rt error s tag extra]) (simp_all add: reports_append)

lemma logError_report_new_reports:
  "reports (events (fst (logError_report rt s tag error extra))) = reports (events s) \<or>
   reports (events (fst (logError_report rt s tag error extra)))
     = reports (events s) @ [report_request rt s tag error extra]"
  by (cases rule: logError_report_cases [of rt error s tag extra]) (simp_all add: reports_append)

lemma logError_report_extractor_calls:
  "extractor_calls (events (fst (logError_report rt s tag error extra))) = extractor_calls (events s)"
  by (cases rule: logError_report_cases [of rt error s tag extra])
     (simp_all add: extractor_calls_append)

lemma logError_report_suspended:
  "suspended (fst (logError_report rt s tag error extra)) = suspended s"
  by (cases rule: logError_report_cases [of rt error s tag extra]) simp_all

lemma logError_report_once:
  assumes "report_once s"
  shows "report_once (fst (logError_report rt s tag error extra))"
proof (cases rule: logError_report_cases [of rt error s tag extra])
  case dropped
  then show ?thesis using assms by simp
next
  case sent
  let ?name = "failure_name (unwrap rt error)"
  let ?s' = "fst (logError_report rt s tag error extra)"
  have old: "length (reports_named n (events s)) \<le> (if n \<in> seen s then 1 else 0)" for n
    using assms by (simp add: report_once_def)
  have none: "reports_named ?name (events s) = []"
    using old [of ?name] sent(1) by simp
  have ev: "reports_named n (events ?s') =
      reports_named n (events s) @ (if n = ?name then [report_request rt s tag error extra] else [])" for n
    using sent(3) by (simp add: reports_named_def reports_append reported_exception_request)
  have sn: "seen ?s' = insert ?name (seen s)"
    using sent(3) by simp
  show ?thesis
    unfolding report_once_def
  proof
    fix n
    show "length (reports_named n (events ?s')) \<le> (if n \<in> seen ?s' then 1 else 0)"
    proof (cases "n = ?name")
      case True
      then show ?thesis using none by (simp add: ev sn)
    next
      case False
      then show ?thesis using old [of n] by (simp add: ev sn)
    qed
  qed
next
  case unsent
  let ?s' = "fst (logError_report rt s tag error extra)"
  have old: "length (reports_named n (events s)) \<le> (if n \<in> seen s then 1 else 0)" for n
    using assms by (simp add: report_once_def)
  have ev: "reports_named n (events ?s') = reports_named n (events s)" for n
    using unsent(3) by (simp add: reports_named_def)
  have sn: "seen ?s' = insert (failure_name (unwrap rt error)) (seen s)"
    using unsent(3) by simp
  show ?thesis
    unfolding report_once_def
  proof
    fix n
    show "length (reports_named n (events ?s')) \<le> (if n \<in> seen ?s' then 1 else 0)"
      using old [of n] by (cases "n \<in> seen s") (simp_all add: ev sn)
  qed
qed

subsection \<open>\<open>logError\<close>\<close>


lemma logError_silent_when_seen:
  "failure_name (unwrap rt error) \<in> seen s \<Longrightarrow>
   reports (events (fst (logError rt s tag error ged))) = reports (events s)"
  by (simp add: logError_state logError_report_silent_when_seen reports_append
      split: option.splits completion.splits)


lemma logError_extractor_calls:
  "extractor_calls (events (fst (logError rt s tag error ged)))
     = extractor_calls (events s) + (case ged of None \<Rightarrow> 0 | Some ex \<Rightarrow> 1)"
  by (simp add: logError_state logError_report_extractor_calls extractor_calls_append
      split: option.splits completion.splits)

lemma logError_call_once:
  assumes "report_once s"
  shows "report_once (fst (logError rt s tag error ged))"
proof (cases ged)
  case None
  then show ?thesis using assms by (simp add: logError_state logError_report_once)
next
  case (Some ex)
  have "report_once (fst (logError rt s tag error ged)) = report_once s"
    using Some
    by (intro report_once_cong)
       (simp_all add: logError_state reports_append split: completion.splits)
  then show ?thesis using assms by simp
qed

subsection \<open>The resumption of a suspended call\<close>

lemma unsuspend_frame:
  "report_request rt (s\<lparr>suspended := xs\<rparr>) tag error extra = report_request rt s tag error extra"
  by (simp add: report_request_def)


lemma logError_resume_silent_when_seen:
  assumes "i < length (suspended s) \<longrightarrow> failure_name (unwrap rt (sr_error (suspended s ! i))) \<in> seen s"
  shows "reports (events (fst (logError_resume rt s i))) = reports (events s)"
proof (cases "i < length (suspended s)")
  case False
  then show ?thesis by (simp add: logError_resume_state)
next
  case True
  show ?thesis
  proof (cases "await (sr_awaited (suspended s ! i))")
    case (Resumed extra)
    then show ?thesis
      using True assms
        logError_report_silent_when_seen [of rt "sr_error (suspended s ! i)"
          "s\<lparr>suspended := remove_nth i (suspended s)\<rparr>" "sr_tag (suspended s ! i)" extra]
      by (simp add: logError_resume_state)
  qed (simp_all add: True logError_resume_state)
qed

lemma logError_resume_once:
  assumes "report_once s"
  shows "report_once (fst (logError_resume rt s i))"
proof (cases "i < length (suspended s)")
  case False
  then show ?thesis using assms by (simp add: logError_resume_state)
next
  case True
  have frame: "report_once (s\<lparr>suspended := remove_nth i (suspended s)\<rparr>)"
  proof -
    have "report_once (s\<lparr>suspended := remove_nth i (suspended s)\<rparr>) = report_once s"
      by (rule report_once_cong) simp_all
    then show ?thesis using assms by simp
  qed
  show ?thesis
  proof (cases "await (sr_awaited (suspended s ! i))")
    case (Resumed extra)
    then show ?thesis using True frame by (simp add: logError_resume_state logError_report_once)
  next
    case (Raised e)
    then show ?thesis using True frame by (simp add: logError_resume_state)
  next
    case Suspended
    then show ?thesis using True assms by (simp add: logError_resume_state)
  qed
qed

subsection \<open>\<open>onCaught\<close> and \<open>capture\<close>\<close>

lemma console_frame:
  "reports (es @ [ConsoleError e]) = reports es"
  "extractor_calls (es @ [ConsoleError e]) = extractor_calls es"
  by (simp_all add: reports_append extractor_calls_append)


lemma onCaught_report_once:
  assumes "report_once s"
  shows "report_once (fst (onCaught rt s tag e recover ged))"
proof (cases "is_contract_violation e")
  case True
  then show ?thesis using assms by (simp add: onCaught_state)
next
  case False
  have "report_once (s\<lparr>events := events s @ [ConsoleError e]\<rparr>) = report_once s"
    by (rule report_once_cong) (simp_all add: console_frame)
  then have "report_once (s\<lparr>events := events s @ [ConsoleError e]\<rparr>)"
    using assms by simp
  then show ?thesis using False
    by (simp add: onCaught_state logError_call_once)
qed

lemma onCaught_silent_when_seen:
  assumes "is_contract_violation e \<or> failure_name (unwrap rt e) \<in> seen s"
  shows "reports (events (fst (onCaught rt s tag e recover ged))) = reports (events s)"
proof (cases "is_contract_violation e")
  case True
  then show ?thesis by (simp add: onCaught_state)
next
  case False
  then have "failure_name (unwrap rt e) \<in> seen (s\<lparr>events := events s @ [ConsoleError e]\<rparr>)"
    using assms by simp
  then show ?thesis using False
    by (simp add: onCaught_state logError_silent_when_seen console_frame)
qed

lemma onCaught_extractor_calls:
  "extractor_calls (events (fst (onCaught rt s tag e recover ged))) =
     extractor_calls (events s) +
       (if is_contract_violation e then 0 else (case ged of None \<Rightarrow> 0 | Some ex \<Rightarrow> 1))"
  by (simp add: onCaught_state logError_extractor_calls console_frame)

lemma beginMarker_markers: "\<exists>M. fst (beginMarker s tag) = s\<lparr>markers := M\<rparr>"
proof (cases "length (markers s) < maxMarkers s")
  case True
  then have "fst (beginMarker s tag) =
      s\<lparr>markers := markers s @
          [\<lparr>mk_id = tag @ ''_'' @ string_of_nat (length (markers s)), mk_tag = tag, mk_end = None\<rparr>]\<rparr>"
    by (simp add: beginMarker_def Diagnostics_start_def Diagnostics_getMarkerCount_def Let_def)
  then show ?thesis by blast
next
  case False
  then have "fst (beginMarker s tag) = s\<lparr>markers := markers s\<rparr>"
    by (simp add: beginMarker_def Diagnostics_start_def Diagnostics_getMarkerCount_def Let_def)
  then show ?thesis by blast
qed

lemma endMarker_markers: "\<exists>M. endMarker s tag ok mid cfg = s\<lparr>markers := M\<rparr>"
proof (cases "mid = None \<or> mid = Some []")
  case True
  then have "endMarker s tag ok mid cfg = s\<lparr>markers := markers s\<rparr>"
    by (auto simp add: endMarker_def)
  then show ?thesis by blast
next
  case False
  then obtain a where "mid = Some a" "a \<noteq> []" by (cases mid) auto
  then have "endMarker s tag ok mid cfg = s\<lparr>markers := map (close_marker tag a ok cfg) (markers s)\<rparr>"
    by (simp add: endMarker_def Diagnostics_end_def)
  then show ?thesis by blast
qed

lemma logError_report_markers:
  "fst (logError_report rt (s\<lparr>markers := M\<rparr>) tag error extra)
     = (fst (logError_report rt s tag error extra))\<lparr>markers := M\<rparr>"
  by (simp add: logError_report_def Let_def split: completion.splits)

lemma logError_markers:
  "fst (logError rt (s\<lparr>markers := M\<rparr>) tag error ged) = (fst (logError rt s tag error ged))\<lparr>markers := M\<rparr>"
proof (cases ged)
  case None
  then show ?thesis by (simp add: logError_state logError_report_markers)
next
  case (Some ex)
  have a: "(s\<lparr>markers := M\<rparr>)\<lparr>events := E\<rparr> = (s\<lparr>events := E\<rparr>)\<lparr>markers := M\<rparr>" for E
    by (cases s) simp
  have b: "(s\<lparr>markers := M\<rparr>)\<lparr>events := E, suspended := X\<rparr>
      = (s\<lparr>events := E, suspended := X\<rparr>)\<lparr>markers := M\<rparr>" for E X
    by (cases s) simp
  show ?thesis using Some a b
    by (cases ex) (simp_all add: logError_state)
qed

lemma state_update_swap:
  "(s\<lparr>markers := M\<rparr>)\<lparr>events := E\<rparr> = (s\<lparr>events := E\<rparr>)\<lparr>markers := M\<rparr>"
  by (cases s) simp

lemma onCaught_markers:
  "fst (onCaught rt (s\<lparr>markers := M\<rparr>) tag e recover ged)
     = (fst (onCaught rt s tag e recover ged))\<lparr>markers := M\<rparr>"
proof (cases "is_contract_violation e")
  case True
  then show ?thesis by (simp add: onCaught_state)
next
  case False
  have "fst (onCaught rt (s\<lparr>markers := M\<rparr>) tag e recover ged)
      = fst (logError rt ((s\<lparr>markers := M\<rparr>)\<lparr>events := events s @ [ConsoleError e]\<rparr>) tag e ged)"
    using False by (simp add: onCaught_state)
  also have "\<dots> = fst (logError rt ((s\<lparr>events := events s @ [ConsoleError e]\<rparr>)\<lparr>markers := M\<rparr>) tag e ged)"
    by (simp only: state_update_swap)
  also have "\<dots> = (fst (logError rt (s\<lparr>events := events s @ [ConsoleError e]\<rparr>) tag e ged))\<lparr>markers := M\<rparr>"
    by (rule logError_markers)
  also have "\<dots> = (fst (onCaught rt s tag e recover ged))\<lparr>markers := M\<rparr>"
    using False by (simp add: onCaught_state)
  finally show ?thesis .
qed

lemma endMarker_after_markers:
  "\<exists>M'. endMarker (s\<lparr>markers := M\<rparr>) tag ok mid cfg = s\<lparr>markers := M'\<rparr>"
proof -
  obtain M' where "endMarker (s\<lparr>markers := M\<rparr>) tag ok mid cfg = (s\<lparr>markers := M\<rparr>)\<lparr>markers := M'\<rparr>"
    using endMarker_markers by blast
  then have "endMarker (s\<lparr>markers := M\<rparr>) tag ok mid cfg = s\<lparr>markers := M'\<rparr>" by simp
  then show ?thesis by blast
qed

lemma capture_shape:
  "\<exists>M. fst (capture rt s tag task recover opts) =
     (case task_failure task of
        None \<Rightarrow> s
      | Some e \<Rightarrow> fst (onCaught rt s tag e recover (getExtraData opts)))\<lparr>markers := M\<rparr>"
proof -
  obtain M1 where b: "fst (beginMarker s tag) = s\<lparr>markers := M1\<rparr>"
    using beginMarker_markers by blast
  let ?mid = "snd (beginMarker s tag)"
  let ?ged = "getExtraData opts"
  have caught: "fst (onCaught rt (fst (beginMarker s tag)) tag e recover ?ged) =
      (fst (onCaught rt s tag e recover ?ged))\<lparr>markers := M1\<rparr>" for e
    by (simp add: b onCaught_markers)
  show ?thesis
  proof (cases task)
    case (Throw e)
    obtain M2 where "endMarker (s\<lparr>markers := M1\<rparr>) tag False ?mid (configName opts) = s\<lparr>markers := M2\<rparr>"
      using endMarker_after_markers by blast
    then have "fst (capture rt s tag task recover opts) = (fst (onCaught rt s tag e recover ?ged))\<lparr>markers := M2\<rparr>"
      using Throw by (simp add: capture_state onCaught_markers b)
    then show ?thesis using Throw by auto
  next
    case (Normal res)
    show ?thesis
    proof (cases res)
      case (Plain v)
      obtain M2 where "endMarker (s\<lparr>markers := M1\<rparr>) tag True ?mid (configName opts) = s\<lparr>markers := M2\<rparr>"
        using endMarker_after_markers by blast
      then show ?thesis using Normal Plain by (auto simp add: capture_state b)
    next
      case (Promise p)
      show ?thesis
      proof (cases p)
        case (Fulfilled v)
        obtain M2 where "endMarker (s\<lparr>markers := M1\<rparr>) tag True ?mid None = s\<lparr>markers := M2\<rparr>"
          using endMarker_after_markers by blast
        then show ?thesis using Normal Promise Fulfilled by (auto simp add: capture_state b)
      next
        case (Rejected e)
        let ?oc = "fst (onCaught rt s tag e recover ?ged)"
        obtain M2 where m2: "endMarker (?oc\<lparr>markers := M1\<rparr>) tag False ?mid None = ?oc\<lparr>markers := M2\<rparr>"
          using endMarker_after_markers by blast
        have "fst (capture rt s tag task recover opts) = ?oc\<lparr>markers := M1\<rparr> \<or>
              fst (capture rt s tag task recover opts) = ?oc\<lparr>markers := M2\<rparr>"
          using Normal Promise Rejected m2
          by (simp add: capture_state caught
              split: completion.splits result.splits promise_state.splits)
        then show ?thesis using Normal Promise Rejected by auto
      next
        case Pending
        then show ?thesis using Normal Promise b by (auto simp add: capture_state)
      qed
    qed
  qed
qed


lemma capture_report_once:
  assumes "report_once s"
  shows "report_once (fst (capture rt s tag task recover opts))"
proof -
  let ?mid = "case task_failure task of None \<Rightarrow> s
      | Some e \<Rightarrow> fst (onCaught rt s tag e recover (getExtraData opts))"
  obtain M where sh: "fst (capture rt s tag task recover opts) = ?mid\<lparr>markers := M\<rparr>"
    using capture_shape by blast
  have "report_once ?mid"
    using assms by (cases "task_failure task") (simp_all add: onCaught_report_once)
  moreover have "report_once (?mid\<lparr>markers := M\<rparr>) = report_once ?mid"
    by (rule report_once_cong) simp_all
  ultimately show ?thesis by (simp add: sh)
qed

lemma capture_silent_when_seen:
  assumes "task_failure task = Some e"
    "is_contract_violation e \<or> failure_name (unwrap rt e) \<in> seen s"
  shows "reports (events (fst (capture rt s tag task recover opts))) = reports (events s)"
proof -
  obtain M where "fst (capture rt s tag task recover opts) =
     (case task_failure task of None \<Rightarrow> s
      | Some e \<Rightarrow> fst (onCaught rt s tag e recover (getExtraData opts)))\<lparr>markers := M\<rparr>"
    using capture_shape by blast
  then show ?thesis
    using assms by (simp add: onCaught_silent_when_seen)
qed

subsection \<open>Sessions\<close>



lemma exec_report_once: "report_once s \<Longrightarrow> report_once (exec rt c s)"
proof (cases c)
  case (SetStatsigMetadata md)
  assume "report_once s"
  moreover have "report_once (setStatsigMetadata s md) = report_once s"
    by (rule report_once_cong) (simp_all add: setStatsigMetadata_def)
  ultimately show ?thesis using SetStatsigMetadata by simp
qed (simp_all add: capture_report_once swallow_state logError_call_once logError_resume_once)

lemma run_report_once: "report_once s \<Longrightarrow> report_once (run cs s)"
  by (induction cs arbitrary: s) (simp_all add: exec_report_once)

lemma new_report_once: "report_once (ErrorBoundary_new key sampling)"
  by (simp add: report_once_def reports_named_def ErrorBoundary_new_def setupDiagnostics_def
      Diagnostics_setMaxMarkers_def)

section \<open>Evaluation on concrete sessions\<close>

lemmas scenario_defs =
  quiet_runtime_def failing_runtime_def uninitialized_error_def type_error_def no_options_def
  working_extractor_def rejecting_extractor_def after_first_failure_def config_options_def
  stackless_error_def client_metadata_def

lemmas boundary_defs =
  ErrorBoundary_new_def setupDiagnostics_def Diagnostics_setMaxMarkers_def
  MAX_DIAGNOSTICS_MARKERS_def capture_def beginMarker_def endMarker_def Diagnostics_start_def
  Diagnostics_end_def Diagnostics_getMarkerCount_def close_marker_def onCaught_def
  is_contract_violation_def settle_def swallow_def Let_def

lemma string_of_nat_0: "string_of_nat 0 = ''0''"
  by (simp add: string_of_nat.simps digit_char_def)

section \<open>Diagnostics markers of \<open>capture\<close>\<close>

text \<open>
  In a session that is not sampled the capacity is zero, \<open>beginMarker\<close> yields no
  marker id and \<open>capture\<close> records no marker, whatever the task does.
\<close>

lemma logError_keeps_markers: "markers (fst (logError rt s tag error ged)) = markers s"
proof -
  have "fst (logError rt (s\<lparr>markers := markers s\<rparr>) tag error ged)
      = (fst (logError rt s tag error ged))\<lparr>markers := markers s\<rparr>"
    by (rule logError_markers)
  then have "fst (logError rt s tag error ged) = (fst (logError rt s tag error ged))\<lparr>markers := markers s\<rparr>"
    by simp
  then have "markers (fst (logError rt s tag error ged))
      = markers ((fst (logError rt s tag error ged))\<lparr>markers := markers s\<rparr>)"
    by simp
  then show ?thesis by simp
qed

lemma onCaught_keeps_markers: "markers (fst (onCaught rt s tag e recover ged)) = markers s"
  by (simp add: onCaught_state logError_keeps_markers)

lemma beginMarker_unsampled: "maxMarkers s = 0 \<Longrightarrow> beginMarker s tag = (s, None)"
  by (simp add: beginMarker_def Diagnostics_start_def Let_def)

lemma unsampled_capture_records_no_markers:
  assumes "maxMarkers s = 0"
  shows "markers (fst (capture rt s tag task recover opts)) = markers s"
  using assms
  by (simp add: capture_state beginMarker_unsampled endMarker_def onCaught_keeps_markers
      split: completion.splits result.splits promise_state.splits)

text \<open>
  Claim C4 says that in a sampled session every \<open>capture\<close> call that starts a marker
  also ends it with the success flag and the \<open>configName\<close> of the options, for
  synchronous and promise-returning tasks alike. The synchronous branches do so. The
  promise branch calls \<open>endMarker\<close> without the config name, and only from the
  \<open>then\<close> handler, which does not run when \<open>onCaught\<close> rethrows. Evaluated on a
  sampled session with \<open>configName = a_config\<close>: a task returning a value and a task
  throwing a contract violation close their marker with the config name; a task returning
  a fulfilled promise closes it without the config name; a task whose promise rejects
  with a contract violation leaves its marker open.
\<close>

theorem promise_task_end_marker_loses_configName:
  "markers (fst (capture rt (ErrorBoundary_new ''client-key'' 0) ''getConfig''
       (Normal (Plain (JBool True))) recover config_options))
     = [\<lparr>mk_id = ''getConfig_0'', mk_tag = ''getConfig'', mk_end = Some (True, Some ''a_config'')\<rparr>] \<and>
   markers (fst (capture rt (ErrorBoundary_new ''client-key'' 0) ''getConfig''
       (Normal (Promise (Fulfilled (JBool True)))) recover config_options))
     = [\<lparr>mk_id = ''getConfig_0'', mk_tag = ''getConfig'', mk_end = Some (True, None)\<rparr>] \<and>
   markers (fst (capture rt (ErrorBoundary_new ''client-key'' 0) ''getConfig''
       (Throw uninitialized_error) recover config_options))
     = [\<lparr>mk_id = ''getConfig_0'', mk_tag = ''getConfig'', mk_end = Some (False, Some ''a_config'')\<rparr>] \<and>
   markers (fst (capture rt (ErrorBoundary_new ''client-key'' 0) ''getConfig''
       (Normal (Promise (Rejected uninitialized_error))) recover config_options))
     = [\<lparr>mk_id = ''getConfig_0'', mk_tag = ''getConfig'', mk_end = None\<rparr>]"
  by (simp add: boundary_defs scenario_defs string_of_nat_0)

section \<open>\<open>swallow\<close>\<close>

text \<open>
  Claim C5 says that \<open>swallow\<close> behaves as \<open>capture\<close> with a recovery value of
  \<open>undefined\<close>, returns no value, turns an unexpected failure into a no-op and still
  lets the two contract-violation kinds propagate, for every task. For a task that returns
  a promise rejected with a \<open>StatsigUninitializedError\<close>, \<open>capture\<close> returns a
  promise rejected with that error, but \<open>swallow\<close> discards that promise and returns
  \<open>undefined\<close>: its caller receives neither an exception nor a rejected promise.
\<close>

theorem swallow_drops_rejected_contract_violation:
  "is_contract_violation uninitialized_error \<and>
   snd (capture quiet_runtime (ErrorBoundary_new ''client-key'' 1) ''updateUser''
          (Normal (Promise (Rejected uninitialized_error))) (Normal (Plain JUndefined)) no_options)
     = Normal (Promise (Rejected uninitialized_error)) \<and>
   snd (swallow quiet_runtime (ErrorBoundary_new ''client-key'' 1) ''updateUser''
          (Normal (Promise (Rejected uninitialized_error))) no_options)
     = Normal (Plain JUndefined)"
  by (simp add: boundary_defs scenario_defs)

text \<open>
  Claim C5, amended. \<open>swallow\<close> has exactly the effects of \<open>capture\<close> with a recovery
  value of \<open>undefined\<close> (\<open>swallow_spec\<close>); it throws what that call throws and
  otherwise returns \<open>undefined\<close>, discarding the result. So a contract violation thrown
  synchronously by the task propagates, an unexpected error thrown by the task becomes a
  no-op, and whenever the task returns (a value or a promise, whatever the promise's fate)
  \<open>swallow\<close> returns \<open>undefined\<close>.
\<close>

theorem swallow_is_capture_without_result:
  "fst (swallow rt s tag task opts) = fst (swallow_spec rt s tag task opts) \<and>
   snd (swallow rt s tag task opts) =
     (case snd (swallow_spec rt s tag task opts) of
        Throw x \<Rightarrow> Throw x
      | Normal r \<Rightarrow> Normal (Plain JUndefined)) \<and>
   (is_contract_violation e \<longrightarrow> snd (swallow rt s tag (Throw e) opts) = Throw e) \<and>
   (\<not> is_contract_violation e \<longrightarrow>
      snd (swallow rt s tag (Throw e) opts) = Normal (Plain JUndefined)) \<and>
   snd (swallow rt s tag (Normal r) opts) = Normal (Plain JUndefined)"
proof -
  have eff: "fst (swallow rt s tag task opts) = fst (swallow_spec rt s tag task opts)"
    by (simp add: swallow_state swallow_spec_def)
  have res: "snd (swallow rt s tag task opts) =
     (case snd (swallow_spec rt s tag task opts) of
        Throw x \<Rightarrow> Throw x
      | Normal r \<Rightarrow> Normal (Plain JUndefined))" for task
    by (simp add: swallow_def swallow_spec_def split: prod.splits completion.splits)
  have thrown: "snd (swallow rt s tag (Throw e) opts) = Throw e" if "is_contract_violation e"
    using that by (simp add: res swallow_spec_def capture_completion)
  have noop: "snd (swallow rt s tag (Throw e) opts) = Normal (Plain JUndefined)"
    if "\<not> is_contract_violation e"
    using that by (simp add: res swallow_spec_def capture_completion)
  have returned: "snd (swallow rt s tag (Normal r) opts) = Normal (Plain JUndefined)"
    by (simp add: res swallow_spec_def capture_completion
        split: result.splits promise_state.splits completion.splits)
  show ?thesis using eff res thrown noop returned by blast
qed

theorem swallow_is_capture_without_result_witness:
  "is_contract_violation uninitialized_error \<and>
   snd (swallow quiet_runtime (ErrorBoundary_new ''client-key'' 1) ''logEvent''
          (Throw uninitialized_error) no_options) = Throw uninitialized_error \<and>
   \<not> is_contract_violation type_error \<and>
   snd (swallow quiet_runtime (ErrorBoundary_new ''client-key'' 1) ''logEvent''
          (Throw type_error) no_options) = Normal (Plain JUndefined)"
proof -
  have h1: "is_contract_violation uninitialized_error"
    by (simp add: is_contract_violation_def uninitialized_error_def)
  have h2: "\<not> is_contract_violation type_error"
    by (simp add: is_contract_violation_def type_error_def)
  have a: "snd (swallow quiet_runtime (ErrorBoundary_new ''client-key'' 1) ''logEvent''
          (Throw uninitialized_error) no_options) = Throw uninitialized_error"
    using h1 swallow_is_capture_without_result
      [where e = uninitialized_error and rt = quiet_runtime and tag = "''logEvent''"
         and s = "ErrorBoundary_new ''client-key'' 1" and opts = no_options]
    by blast
  have b: "snd (swallow quiet_runtime (ErrorBoundary_new ''client-key'' 1) ''logEvent''
          (Throw type_error) no_options) = Normal (Plain JUndefined)"
    using h2 swallow_is_capture_without_result
      [where e = type_error and rt = quiet_runtime and tag = "''logEvent''"
         and s = "ErrorBoundary_new ''client-key'' 1" and opts = no_options]
    by blast
  show ?thesis using h1 h2 a b by blast
qed

section \<open>When the extractor is called\<close>

text \<open>
  Claim C8 says that the extractor is called only after an unexpected failure has been
  caught and found not yet deduplicated. \<open>logError\<close> awaits \<open>getExtraData()\<close> before
  it looks at \<open>seen\<close>: in a session where a \<open>TypeError\<close> has already been reported,
  a second \<open>TypeError\<close> caught by \<open>capture\<close> calls the extractor once more, although
  the failure is deduplicated and no report is sent, neither in the call nor when the
  suspended \<open>logError\<close> resumes.
\<close>

theorem extractor_called_for_deduplicated_failure:
  "failure_name (unwrap quiet_runtime type_error) \<in> seen after_first_failure \<and>
   extractor_calls (events (fst (capture quiet_runtime after_first_failure ''getConfig''
        (Throw type_error) (Normal (Plain JNull))
        \<lparr>getExtraData = Some working_extractor, configName = None\<rparr>)))
     = Suc (extractor_calls (events after_first_failure)) \<and>
   reports (events (fst (capture quiet_runtime after_first_failure ''getConfig''
        (Throw type_error) (Normal (Plain JNull))
        \<lparr>getExtraData = Some working_extractor, configName = None\<rparr>)))
     = reports (events after_first_failure) \<and>
   reports (events (fst (logError_resume quiet_runtime
        (fst (capture quiet_runtime after_first_failure ''getConfig''
           (Throw type_error) (Normal (Plain JNull))
           \<lparr>getExtraData = Some working_extractor, configName = None\<rparr>)) 0)))
     = reports (events after_first_failure)"
  by (simp add: boundary_defs report_defs scenario_defs)

text \<open>
  Claim C8, amended. \<open>capture\<close> does not call the extractor when the task completes
  without failure (or never settles) or fails with a contract violation; when the task
  fails, synchronously or by rejection, with any other error and an extractor is given, the
  extractor is called exactly once, before the deduplication check and whatever its
  outcome.
\<close>

theorem extractor_called_once_per_unexpected_failure:
  "extractor_calls (events (fst (capture rt s tag task recover opts))) =
     extractor_calls (events s) +
       (case task_failure task of
          None \<Rightarrow> 0
        | Some e \<Rightarrow> if is_contract_violation e \<or> getExtraData opts = None then 0 else 1)"
proof -
  obtain M where "fst (capture rt s tag task recover opts) =
     (case task_failure task of None \<Rightarrow> s
      | Some e \<Rightarrow> fst (onCaught rt s tag e recover (getExtraData opts)))\<lparr>markers := M\<rparr>"
    using capture_shape by blast
  then show ?thesis
    by (cases "task_failure task")
       (simp_all add: onCaught_extractor_calls split: option.splits)
qed

section \<open>Deduplication of reports\<close>

lemma capture_sync_failure_state:
  assumes "\<not> is_contract_violation e"
  shows "\<exists>M. fst (capture rt s tag (Throw e) recover opts) =
           (fst (logError rt (s\<lparr>events := events s @ [ConsoleError e]\<rparr>) tag e (getExtraData opts)))
             \<lparr>markers := M\<rparr>"
proof -
  obtain M where "fst (capture rt s tag (Throw e) recover opts) =
     (case task_failure (Throw e) of None \<Rightarrow> s
      | Some e \<Rightarrow> fst (onCaught rt s tag e recover (getExtraData opts)))\<lparr>markers := M\<rparr>"
    using capture_shape by blast
  then have "fst (capture rt s tag (Throw e) recover opts) =
           (fst (logError rt (s\<lparr>events := events s @ [ConsoleError e]\<rparr>) tag e (getExtraData opts)))
             \<lparr>markers := M\<rparr>"
    using assms by (simp add: onCaught_state)
  then show ?thesis by blast
qed

lemma logError_resume_sends:
  assumes "i < length (suspended s)" "await (sr_awaited (suspended s ! i)) = Resumed extra"
    "failure_name (unwrap rt (sr_error (suspended s ! i))) \<notin> seen s"
    "serializable (report_extra extra)"
  shows "reports (events (fst (logError_resume rt s i)))
           = reports (events s)
               @ [report_request rt s (sr_tag (suspended s ! i)) (sr_error (suspended s ! i)) extra] \<and>
         failure_name (unwrap rt (sr_error (suspended s ! i))) \<in> seen (fst (logError_resume rt s i))"
  using assms
    logError_report_sends [of rt "sr_error (suspended s ! i)"
      "s\<lparr>suspended := remove_nth i (suspended s)\<rparr>" extra "sr_tag (suspended s ! i)"]
  by (simp add: logError_resume_state unsuspend_frame)

text \<open>
  Claim C3 says that per failure name at most one report is sent: the first unexpected
  failure whose name is not in \<open>seen\<close> is reported and its name added, and later
  failures with a seen name produce no report. The first half of the mechanism does not
  hold for every failure: when the extractor rejects, the \<open>await\<close> raises inside the
  \<open>try\<close> block before \<open>seen\<close> is consulted. A first \<open>TypeError\<close> in a fresh
  session, logged with such an extractor, is suspended by the call and dropped when it
  resumes: no report is sent, the name is not entered into \<open>seen\<close>, and nothing
  remains suspended.
\<close>

theorem first_failure_with_failing_extractor_not_reported:
  "failure_name (unwrap quiet_runtime type_error) \<notin> seen (ErrorBoundary_new ''client-key'' 1) \<and>
   reports (events (fst (logError quiet_runtime (ErrorBoundary_new ''client-key'' 1) ''checkGate''
       type_error (Some rejecting_extractor)))) = [] \<and>
   reports (events (fst (logError_resume quiet_runtime
       (fst (logError quiet_runtime (ErrorBoundary_new ''client-key'' 1) ''checkGate''
          type_error (Some rejecting_extractor))) 0))) = [] \<and>
   failure_name (unwrap quiet_runtime type_error)
     \<notin> seen (fst (logError_resume quiet_runtime
          (fst (logError quiet_runtime (ErrorBoundary_new ''client-key'' 1) ''checkGate''
             type_error (Some rejecting_extractor))) 0)) \<and>
   suspended (fst (logError_resume quiet_runtime
       (fst (logError quiet_runtime (ErrorBoundary_new ''client-key'' 1) ''checkGate''
          type_error (Some rejecting_extractor))) 0)) = []"
  by (simp add: boundary_defs report_defs scenario_defs)

text \<open>
  The order of the calls does not decide which failure is reported either. A
  \<open>TypeError\<close> logged with a working extractor is suspended; a second \<open>TypeError\<close>
  logged without extractor before the first resumes is reported at once, under its own
  tag, and the first is dropped when it resumes.
\<close>

lemma suspended_failure_overtaken:
  "map (\<lambda>r. body_field (body r) ''tag'')
     (reports (events (run
        [(quiet_runtime, LogError ''checkGate'' type_error (Some working_extractor)),
         (quiet_runtime, LogError ''getConfig'' type_error None),
         (quiet_runtime, Resume 0)]
        (ErrorBoundary_new ''client-key'' 1))))
   = [Some (JStr ''getConfig'')]"
  by (simp add: boundary_defs report_defs scenario_defs)

text \<open>
  Claim C3, amended. In a session started by the constructor, whatever calls are made and
  in whatever order suspended calls of \<open>logError\<close> resume, at most one report carries a
  given failure name. A failure whose name is in \<open>seen\<close> produces no report, from
  \<open>logError\<close>, through \<open>capture\<close> or on resumption, whatever the tag. The
  deduplication check runs inside the call when there is no extractor: then a failure
  whose name is not in \<open>seen\<close>, passed to \<open>logError\<close>, thrown by the task of
  \<open>capture\<close> or handed to \<open>onCaught\<close> (which \<open>capture\<close> also calls from the
  handler it attaches to the task's promise, when that promise rejects), is reported with
  that name as \<open>exception\<close> and the name is added to
  \<open>seen\<close>. With an extractor that returns, the call sends nothing and leaves
  \<open>seen\<close> as it is; the call is suspended, and when it resumes with the awaited value, a
  failure whose name is not in \<open>seen\<close> by then is reported and its name added, provided
  the extra data can be serialised. When the extractor throws, or the awaited promise
  rejects, the failure is neither reported nor recorded in \<open>seen\<close>.
\<close>

theorem at_most_one_report_per_name:
  "length (reports_named n (events (run cs (ErrorBoundary_new key sampling)))) \<le> 1 \<and>
   (failure_name (unwrap rt error) \<in> seen s \<longrightarrow>
      reports (events (fst (logError rt s tag error ged))) = reports (events s)) \<and>
   (task_failure task = Some e \<and> failure_name (unwrap rt e) \<in> seen s \<longrightarrow>
      reports (events (fst (capture rt s tag task recover opts))) = reports (events s)) \<and>
   (i < length (suspended s) \<and> failure_name (unwrap rt (sr_error (suspended s ! i))) \<in> seen s \<longrightarrow>
      reports (events (fst (logError_resume rt s i))) = reports (events s)) \<and>
   (failure_name (unwrap rt error) \<notin> seen s \<longrightarrow>
      (\<exists>r. reports (events (fst (logError rt s tag error None))) = reports (events s) @ [r] \<and>
           reported_exception r = Some (JStr (failure_name (unwrap rt error)))) \<and>
      failure_name (unwrap rt error) \<in> seen (fst (logError rt s tag error None))) \<and>
   (\<not> is_contract_violation e \<and> failure_name (unwrap rt e) \<notin> seen s \<and> getExtraData opts = None \<longrightarrow>
      (\<exists>r. reports (events (fst (capture rt s tag (Throw e) recover opts))) = reports (events s) @ [r] \<and>
           reported_exception r = Some (JStr (failure_name (unwrap rt e)))) \<and>
      failure_name (unwrap rt e) \<in> seen (fst (capture rt s tag (Throw e) recover opts))) \<and>
   (\<not> is_contract_violation e \<and> failure_name (unwrap rt e) \<notin> seen s \<longrightarrow>
      (\<exists>r. reports (events (fst (onCaught rt s tag e recover None))) = reports (events s) @ [r] \<and>
           reported_exception r = Some (JStr (failure_name (unwrap rt e)))) \<and>
      failure_name (unwrap rt e) \<in> seen (fst (onCaught rt s tag e recover None))) \<and>
   (reports (events (fst (logError rt s tag error (Some (Normal res))))) = reports (events s) \<and>
    seen (fst (logError rt s tag error (Some (Normal res)))) = seen s \<and>
    suspended (fst (logError rt s tag error (Some (Normal res))))
      = suspended s @ [\<lparr>sr_tag = tag, sr_error = error, sr_awaited = res\<rparr>]) \<and>
   (\<not> is_contract_violation e \<and> getExtraData opts = Some (Normal res) \<longrightarrow>
      reports (events (fst (capture rt s tag (Throw e) recover opts))) = reports (events s) \<and>
      seen (fst (capture rt s tag (Throw e) recover opts)) = seen s \<and>
      suspended (fst (capture rt s tag (Throw e) recover opts))
        = suspended s @ [\<lparr>sr_tag = tag, sr_error = e, sr_awaited = res\<rparr>]) \<and>
   (\<not> is_contract_violation e \<longrightarrow>
      reports (events (fst (onCaught rt s tag e recover (Some (Normal res))))) = reports (events s) \<and>
      seen (fst (onCaught rt s tag e recover (Some (Normal res)))) = seen s \<and>
      suspended (fst (onCaught rt s tag e recover (Some (Normal res))))
        = suspended s @ [\<lparr>sr_tag = tag, sr_error = e, sr_awaited = res\<rparr>]) \<and>
   (i < length (suspended s) \<and> await (sr_awaited (suspended s ! i)) = Resumed extra \<and>
    failure_name (unwrap rt (sr_error (suspended s ! i))) \<notin> seen s \<and>
    serializable (report_extra extra) \<longrightarrow>
      (\<exists>r. reports (events (fst (logError_resume rt s i))) = reports (events s) @ [r] \<and>
           reported_exception r = Some (JStr (failure_name (unwrap rt (sr_error (suspended s ! i)))))) \<and>
      failure_name (unwrap rt (sr_error (suspended s ! i))) \<in> seen (fst (logError_resume rt s i))) \<and>
   (reports (events (fst (logError rt s tag error (Some (Throw x))))) = reports (events s) \<and>
    seen (fst (logError rt s tag error (Some (Throw x)))) = seen s \<and>
    suspended (fst (logError rt s tag error (Some (Throw x)))) = suspended s) \<and>
   (i < length (suspended s) \<and> await (sr_awaited (suspended s ! i)) = Raised x \<longrightarrow>
      reports (events (fst (logError_resume rt s i))) = reports (events s) \<and>
      seen (fst (logError_resume rt s i)) = seen s \<and>
      suspended (fst (logError_resume rt s i)) = remove_nth i (suspended s))"
proof -
  have "report_once (run cs (ErrorBoundary_new key sampling))"
    by (simp add: run_report_once new_report_once)
  then have "length (reports_named n (events (run cs (ErrorBoundary_new key sampling))))
      \<le> (if n \<in> seen (run cs (ErrorBoundary_new key sampling)) then 1 else 0)"
    by (simp add: report_once_def)
  then have once: "length (reports_named n (events (run cs (ErrorBoundary_new key sampling)))) \<le> 1"
    by (simp split: if_splits)
  have silent: "reports (events (fst (logError rt s tag error ged))) = reports (events s)"
    if "failure_name (unwrap rt error) \<in> seen s"
    using that by (rule logError_silent_when_seen)
  have silent': "reports (events (fst (capture rt s tag task recover opts))) = reports (events s)"
    if "task_failure task = Some e" "failure_name (unwrap rt e) \<in> seen s"
    using that by (simp add: capture_silent_when_seen)
  have silent'': "reports (events (fst (logError_resume rt s i))) = reports (events s)"
    if "failure_name (unwrap rt (sr_error (suspended s ! i))) \<in> seen s"
    using that by (simp add: logError_resume_silent_when_seen)
  have ser: "serializable (report_extra JNull)"
    by (simp add: report_extra_def)
  have sends: "(\<exists>r. reports (events (fst (logError rt s tag error None))) = reports (events s) @ [r] \<and>
           reported_exception r = Some (JStr (failure_name (unwrap rt error)))) \<and>
      failure_name (unwrap rt error) \<in> seen (fst (logError rt s tag error None))"
    if "failure_name (unwrap rt error) \<notin> seen s"
    using logError_report_sends [OF that ser, of tag] reported_exception_request
    by (auto simp add: logError_state)
  have sends': "(\<exists>r. reports (events (fst (capture rt s tag (Throw e) recover opts))) = reports (events s) @ [r] \<and>
           reported_exception r = Some (JStr (failure_name (unwrap rt e)))) \<and>
      failure_name (unwrap rt e) \<in> seen (fst (capture rt s tag (Throw e) recover opts))"
    if c: "\<not> is_contract_violation e" and u: "failure_name (unwrap rt e) \<notin> seen s"
      and g: "getExtraData opts = None"
  proof -
    let ?s0 = "s\<lparr>events := events s @ [ConsoleError e]\<rparr>"
    obtain M where m: "fst (capture rt s tag (Throw e) recover opts) =
        (fst (logError rt ?s0 tag e None))\<lparr>markers := M\<rparr>"
      using capture_sync_failure_state [OF c, of rt s tag recover opts] g by auto
    have u0: "failure_name (unwrap rt e) \<notin> seen ?s0" using u by simp
    have "reports (events (fst (logError_report rt ?s0 tag e JNull)))
             = reports (events ?s0) @ [report_request rt ?s0 tag e JNull] \<and>
          failure_name (unwrap rt e) \<in> seen (fst (logError_report rt ?s0 tag e JNull))"
      using logError_report_sends [OF u0 ser] .
    then show ?thesis
      using reported_exception_request [of rt ?s0 tag e JNull]
      by (auto simp add: m logError_state console_frame)
  qed
  have caught: "(\<exists>r. reports (events (fst (onCaught rt s tag e recover None))) = reports (events s) @ [r] \<and>
           reported_exception r = Some (JStr (failure_name (unwrap rt e)))) \<and>
      failure_name (unwrap rt e) \<in> seen (fst (onCaught rt s tag e recover None))"
    if c: "\<not> is_contract_violation e" and u: "failure_name (unwrap rt e) \<notin> seen s"
  proof -
    let ?s0 = "s\<lparr>events := events s @ [ConsoleError e]\<rparr>"
    have u0: "failure_name (unwrap rt e) \<notin> seen ?s0" using u by simp
    have "reports (events (fst (logError_report rt ?s0 tag e JNull)))
             = reports (events ?s0) @ [report_request rt ?s0 tag e JNull] \<and>
          failure_name (unwrap rt e) \<in> seen (fst (logError_report rt ?s0 tag e JNull))"
      using logError_report_sends [OF u0 ser] .
    then show ?thesis
      using reported_exception_request [of rt ?s0 tag e JNull] c
      by (auto simp add: onCaught_state logError_state console_frame)
  qed
  have caught': "reports (events (fst (onCaught rt s tag e recover (Some (Normal res))))) = reports (events s) \<and>
      seen (fst (onCaught rt s tag e recover (Some (Normal res)))) = seen s \<and>
      suspended (fst (onCaught rt s tag e recover (Some (Normal res))))
        = suspended s @ [\<lparr>sr_tag = tag, sr_error = e, sr_awaited = res\<rparr>]"
    if c: "\<not> is_contract_violation e"
    using c by (simp add: onCaught_state logError_state reports_append)
  have susp: "reports (events (fst (logError rt s tag error (Some (Normal res))))) = reports (events s) \<and>
    seen (fst (logError rt s tag error (Some (Normal res)))) = seen s \<and>
    suspended (fst (logError rt s tag error (Some (Normal res))))
      = suspended s @ [\<lparr>sr_tag = tag, sr_error = error, sr_awaited = res\<rparr>]"
    by (simp add: logError_state reports_append)
  have susp': "reports (events (fst (capture rt s tag (Throw e) recover opts))) = reports (events s) \<and>
      seen (fst (capture rt s tag (Throw e) recover opts)) = seen s \<and>
      suspended (fst (capture rt s tag (Throw e) recover opts))
        = suspended s @ [\<lparr>sr_tag = tag, sr_error = e, sr_awaited = res\<rparr>]"
    if c: "\<not> is_contract_violation e" and g: "getExtraData opts = Some (Normal res)"
  proof -
    obtain M where m: "fst (capture rt s tag (Throw e) recover opts) =
        (fst (logError rt (s\<lparr>events := events s @ [ConsoleError e]\<rparr>) tag e (Some (Normal res))))
          \<lparr>markers := M\<rparr>"
      using capture_sync_failure_state [OF c, of rt s tag recover opts] g by auto
    show ?thesis
      by (simp add: m logError_state reports_append)
  qed
  have resumed: "(\<exists>r. reports (events (fst (logError_resume rt s i))) = reports (events s) @ [r] \<and>
           reported_exception r = Some (JStr (failure_name (unwrap rt (sr_error (suspended s ! i)))))) \<and>
      failure_name (unwrap rt (sr_error (suspended s ! i))) \<in> seen (fst (logError_resume rt s i))"
    if "i < length (suspended s)" "await (sr_awaited (suspended s ! i)) = Resumed extra"
       "failure_name (unwrap rt (sr_error (suspended s ! i))) \<notin> seen s"
       "serializable (report_extra extra)"
    using logError_resume_sends [OF that] reported_exception_request by blast
  have thrown: "reports (events (fst (logError rt s tag error (Some (Throw x))))) = reports (events s) \<and>
    seen (fst (logError rt s tag error (Some (Throw x)))) = seen s \<and>
    suspended (fst (logError rt s tag error (Some (Throw x)))) = suspended s"
    by (simp add: logError_state reports_append)
  have rejected: "reports (events (fst (logError_resume rt s i))) = reports (events s) \<and>
      seen (fst (logError_resume rt s i)) = seen s \<and>
      suspended (fst (logError_resume rt s i)) = remove_nth i (suspended s)"
    if "i < length (suspended s)" "await (sr_awaited (suspended s ! i)) = Raised x"
    using that by (simp add: logError_resume_state)
  show ?thesis
    using once silent silent' silent'' sends sends' caught susp susp' caught' resumed thrown rejected
    by blast
qed

theorem at_most_one_report_per_name_witness:
  "failure_name (unwrap quiet_runtime type_error) \<in> seen after_first_failure \<and>
   reports (events (fst (logError quiet_runtime after_first_failure ''getConfig'' type_error None)))
     = reports (events after_first_failure) \<and>
   failure_name (unwrap quiet_runtime type_error) \<notin> seen (ErrorBoundary_new ''client-key'' 1) \<and>
   failure_name (unwrap quiet_runtime type_error)
     \<in> seen (fst (logError quiet_runtime (ErrorBoundary_new ''client-key'' 1) ''checkGate''
               type_error None)) \<and>
   0 < length (suspended (fst (logError quiet_runtime (ErrorBoundary_new ''client-key'' 1)
         ''checkGate'' type_error (Some working_extractor)))) \<and>
   failure_name (unwrap quiet_runtime type_error)
     \<in> seen (fst (logError_resume quiet_runtime
          (fst (logError quiet_runtime (ErrorBoundary_new ''client-key'' 1) ''checkGate''
             type_error (Some working_extractor))) 0)) \<and>
   reports (events (fst (logError_resume quiet_runtime
          (fst (logError quiet_runtime (ErrorBoundary_new ''client-key'' 1) ''checkGate''
             type_error (Some rejecting_extractor))) 0)))
     = reports (events (fst (logError quiet_runtime (ErrorBoundary_new ''client-key'' 1) ''checkGate''
             type_error (Some rejecting_extractor))))"
proof -
  let ?new = "ErrorBoundary_new ''client-key'' 1"
  let ?w = "fst (logError quiet_runtime ?new ''checkGate'' type_error (Some working_extractor))"
  let ?r = "fst (logError quiet_runtime ?new ''checkGate'' type_error (Some rejecting_extractor))"
  let ?extra = "JObj [(''configName'', JStr ''a_config'')]"
  have h1: "failure_name (unwrap quiet_runtime type_error) \<in> seen after_first_failure"
    by (simp add: boundary_defs report_defs scenario_defs)
  have h2: "failure_name (unwrap quiet_runtime type_error) \<notin> seen ?new"
    by (simp add: boundary_defs report_defs scenario_defs)
  have w1: "0 < length (suspended ?w)"
    by (simp add: boundary_defs report_defs scenario_defs)
  have w2: "await (sr_awaited (suspended ?w ! 0)) = Resumed ?extra"
    by (simp add: boundary_defs report_defs scenario_defs)
  have w3: "failure_name (unwrap quiet_runtime (sr_error (suspended ?w ! 0))) \<notin> seen ?w"
    by (simp add: boundary_defs report_defs scenario_defs)
  have w4: "serializable (report_extra ?extra)"
    by (simp add: report_extra_def)
  have w5: "sr_error (suspended ?w ! 0) = type_error"
    by (simp add: boundary_defs report_defs scenario_defs)
  have r1: "0 < length (suspended ?r)"
    by (simp add: boundary_defs report_defs scenario_defs)
  have r2: "await (sr_awaited (suspended ?r ! 0)) = Raised (JStr ''storage unavailable'')"
    by (simp add: boundary_defs report_defs scenario_defs)
  have a: "reports (events (fst (logError quiet_runtime after_first_failure ''getConfig'' type_error None)))
     = reports (events after_first_failure)"
    using h1 at_most_one_report_per_name
      [where rt = quiet_runtime and error = type_error and s = after_first_failure
         and tag = "''getConfig''" and ged = None]
    by blast
  have b: "failure_name (unwrap quiet_runtime type_error)
     \<in> seen (fst (logError quiet_runtime ?new ''checkGate'' type_error None))"
    using h2 at_most_one_report_per_name
      [where rt = quiet_runtime and error = type_error and s = ?new and tag = "''checkGate''"]
    by blast
  have "failure_name (unwrap quiet_runtime (sr_error (suspended ?w ! 0)))
     \<in> seen (fst (logError_resume quiet_runtime ?w 0))"
    using w1 w2 w3 w4 at_most_one_report_per_name
      [where rt = quiet_runtime and s = ?w and i = 0 and extra = ?extra]
    by blast
  then have c: "failure_name (unwrap quiet_runtime type_error)
     \<in> seen (fst (logError_resume quiet_runtime ?w 0))"
    by (simp only: w5)
  have d: "reports (events (fst (logError_resume quiet_runtime ?r 0))) = reports (events ?r)"
    using r1 r2 at_most_one_report_per_name
      [where rt = quiet_runtime and s = ?r and i = 0 and x = "JStr ''storage unavailable''"]
    by blast
  show ?thesis using h1 h2 w1 a b c d by blast
qed

section \<open>Failures that are not \<open>Error\<close> instances\<close>




section \<open>The shape of an exception report\<close>

lemma digits_examples:
  "string_of_nat 404 = ''404''" "string_of_nat 42 = ''42''" "string_of_nat 15 = ''15''"
  "string_of_nat 1 = ''1''" "string_of_nat 12 = ''12''" "string_of_nat 21 = ''21''"
  "string_of_nat 7 = ''7''" "string_of_nat (Suc 0) = ''1''"
  by (simp_all add: string_of_nat.simps digit_char_def)

lemma replicate_examples:
  "replicate 2 (CHR ''0'') = ''00''"
  "replicate 5 (CHR ''0'') = ''00000''"
  "replicate 20 (CHR ''0'') = ''00000000000000000000''"
  by (simp_all add: eval_nat_numeral)

text \<open>
  \<open>Number_toString\<close> on 404, 4.2, -1.5, 100, ten to the power 21 and to the power 20,
  0.000001 and 0.00000012.
\<close>

lemma Number_toString_examples:
  "Number_toString (Finite False 404 3) = ''404''"
  "Number_toString (Finite False 42 1) = ''4.2''"
  "Number_toString (Finite True 15 1) = ''-1.5''"
  "Number_toString (Finite False 1 3) = ''100''"
  "Number_toString (Finite False 1 22) = ''1e+21''"
  "Number_toString (Finite False 1 21) = ''100000000000000000000''"
  "Number_toString (Finite False 1 (- 5)) = ''0.000001''"
  "Number_toString (Finite False 12 (- 6)) = ''1.2e-7''"
  "Number_toString Zero = ''0''"
  by (simp_all add: positive_text_def exponent_text_def digits_examples replicate_examples Let_def)

lemma json_value_meta_to_js: "json_value (meta_to_js v) = meta_to_js v \<and> \<not> json_omitted (meta_to_js v)"
  by (cases v) (simp_all add: json_omitted_def)

lemma json_fields_meta:
  "json_fields (map (\<lambda>kv. (fst kv, meta_to_js (snd kv))) md) = map (\<lambda>kv. (fst kv, meta_to_js (snd kv))) md"
  by (induction md) (simp_all add: json_value_meta_to_js)

lemma json_value_meta_obj: "json_value (meta_obj md) = meta_obj md"
  by (simp add: meta_obj_def json_fields_meta)

lemma unwrap_not_undefined: "\<not> instanceof_Error (unwrap rt error) \<Longrightarrow> unwrap rt error \<noteq> JUndefined"
  by (auto simp add: unwrap_def split: if_splits)

lemma unwrap_function: "(unwrap rt error = JFunction) = (error = JFunction)"
  by (simp add: unwrap_def)

lemma failure_info_explicit:
  "failure_info (unwrap rt error) =
     (if instanceof_Error (unwrap rt error) then error_stack (unwrap rt error)
      else if error = JFunction then JUndefined
      else if serializable (unwrap rt error) then JsonOf (json_value (unwrap rt error))
      else JStr ''[Statsig] Failed to get string for error.'')"
  using unwrap_not_undefined [of rt error] unwrap_function [of rt error]
  by (simp add: failure_info_def getDescription_def JSON_stringify_def json_omitted_def)

lemma report_request_body:
  "body (report_request rt s tag error extra) =
     JsonOf (JObj
       ([(''tag'', JStr tag),
         (''exception'',
            JStr (if instanceof_Error (unwrap rt error) then error_name (unwrap rt error)
                  else ''No Name''))]
        @ (if instanceof_Error (unwrap rt error)
           then (if error_stack (unwrap rt error) = JUndefined then []
                 else [(''info'', error_stack (unwrap rt error))])
           else if error = JFunction then []
           else [(''info'',
                  if serializable (unwrap rt error) then JsonOf (json_value (unwrap rt error))
                  else JStr ''[Statsig] Failed to get string for error.'')])
        @ [(''statsigMetadata'', meta_obj (case statsigMetadata s of None \<Rightarrow> [] | Some m \<Rightarrow> m))]
        @ (if extra = JFunction then []
           else [(''extra'',
                  json_value (if extra = JNull \<or> extra = JUndefined then JObj [] else extra))])))"
proof -
  have stack: "json_value (error_stack u) = error_stack u"
    "json_omitted (error_stack u) = (error_stack u = JUndefined)" for u
    by (cases u rule: error_stack.cases; simp add: json_omitted_simps)+
  have extra: "json_omitted (report_extra extra) = (extra = JFunction)"
    by (cases extra) (simp_all add: report_extra_def json_omitted_def)
  have md: "\<not> json_omitted (meta_obj m)" for m
    by (simp add: meta_obj_def json_omitted_simps)
  have body: "body (report_request rt s tag error extra) =
      JsonOf (JObj (json_fields [(''tag'', JStr tag),
                (''exception'', JStr (failure_name (unwrap rt error))),
                (''info'', failure_info (unwrap rt error)),
                (''statsigMetadata'', meta_obj (case statsigMetadata s of None \<Rightarrow> [] | Some m \<Rightarrow> m)),
                (''extra'', report_extra extra)]))"
    by (simp add: report_request_def)
  show ?thesis
    unfolding body
    by (simp add: failure_info_explicit failure_name_def stack extra md json_omitted_simps
        json_value_meta_obj)
       (simp add: report_extra_def json_omitted_def)
qed

lemma function_not_error: "error = JFunction \<Longrightarrow> \<not> instanceof_Error (unwrap rt error)"
  by (simp add: unwrap_def)

lemma report_request_rest:
  "url (report_request rt s tag error extra) = ''https://statsigapi.net/v1/sdk_exception''"
  "http_method (report_request rt s tag error extra) = ''POST''"
  "map_of (headers (report_request rt s tag error extra)) ''STATSIG-API-KEY'' = Some (sdkKey s)"
  "map_of (headers (report_request rt s tag error extra)) ''STATSIG-SDK-TYPE''
     = Some (case map_of (case statsigMetadata s of None \<Rightarrow> [] | Some m \<Rightarrow> m) ''sdkType'' of
               None \<Rightarrow> ''undefined''
             | Some (MStr t) \<Rightarrow> t
             | Some (MNum x) \<Rightarrow> Number_toString x)"
  "map_of (headers (report_request rt s tag error extra)) ''STATSIG-SDK-VERSION''
     = Some (case map_of (case statsigMetadata s of None \<Rightarrow> [] | Some m \<Rightarrow> m) ''sdkVersion'' of
               None \<Rightarrow> ''undefined''
             | Some (MStr t) \<Rightarrow> t
             | Some (MNum x) \<Rightarrow> Number_toString x)"
  by (simp_all add: report_request_def ExceptionEndpoint_def split: option.splits meta_value.splits)

lemma logError_report_unsuspend:
  "fst (logError_report rt (s\<lparr>suspended := X\<rparr>) tag error extra)
     = (fst (logError_report rt s tag error extra))\<lparr>suspended := X\<rparr>"
  by (simp add: logError_report_def Let_def split: completion.splits)

text \<open>
  Claim C7 says that every report has a JSON body with exactly the fields \<open>tag\<close>,
  \<open>exception\<close>, \<open>info\<close>, \<open>statsigMetadata\<close> and \<open>extra\<close>. For an \<open>Error\<close>
  that has no stack, \<open>info\<close> is \<open>undefined\<close> and \<open>JSON.stringify\<close> leaves it out:
  the one report sent for such an error has a body of four fields.
\<close>

theorem stackless_error_report_has_no_info:
  "map (\<lambda>r. body_keys (body r))
     (reports (events (fst (logError quiet_runtime (ErrorBoundary_new ''client-key'' 1)
         ''checkGate'' stackless_error None))))
   = [[''tag'', ''exception'', ''statsigMetadata'', ''extra'']]"
  by (simp add: boundary_defs report_defs scenario_defs)

text \<open>
  Claim C7, amended. The part of \<open>logError\<close> that reports sends at most one request,
  and \<open>logError\<close> sends requests only through it: inside the call when there is no
  extractor (the extra data then being \<open>null\<close>), and on resumption, with the awaited
  value as extra data, when there is one. Every request sent is a \<open>POST\<close> to the
  exception endpoint. Its body is the JSON text of an object with the fields \<open>tag\<close>,
  \<open>exception\<close>, \<open>info\<close>, \<open>statsigMetadata\<close> and \<open>extra\<close>, in this order
  and no others, except that a field whose value \<open>JSON.stringify\<close> leaves out is
  missing: \<open>info\<close> when the failure is an \<open>Error\<close> without a stack, or a function
  or symbol, and \<open>extra\<close> when the extra data is a function or symbol.
  \<open>exception\<close> is the name of the failure (\<open>No Name\<close> for a value that
  is not an \<open>Error\<close>); \<open>info\<close> is the stack of an \<open>Error\<close> and otherwise the JSON
  text of the value or, when that cannot be produced, the fixed fallback description;
  \<open>statsigMetadata\<close> is the stored metadata (empty when none was set); \<open>extra\<close> is
  the extra data, or an empty object when that is \<open>null\<close> or \<open>undefined\<close>. Among the
  headers, \<open>STATSIG-API-KEY\<close> is the SDK key, and \<open>STATSIG-SDK-TYPE\<close> and
  \<open>STATSIG-SDK-VERSION\<close> are \<open>String\<close> of \<open>sdkType\<close> and \<open>sdkVersion\<close> in the
  stored metadata: the text \<open>undefined\<close> when the entry is missing, the entry itself
  when it is a string, and its decimal text when it is a number.
\<close>

theorem exception_report_shape:
  "(\<exists>rs. reports (events (fst (logError_report rt s tag error extra))) = reports (events s) @ rs \<and>
         length rs \<le> 1 \<and>
         (\<forall>r \<in> set rs.
            url r = ''https://statsigapi.net/v1/sdk_exception'' \<and>
            http_method r = ''POST'' \<and>
            body r = JsonOf (JObj
              ([(''tag'', JStr tag),
                (''exception'',
                   JStr (if instanceof_Error (unwrap rt error) then error_name (unwrap rt error)
                         else ''No Name''))]
               @ (if instanceof_Error (unwrap rt error)
                  then (if error_stack (unwrap rt error) = JUndefined then []
                        else [(''info'', error_stack (unwrap rt error))])
                  else if error = JFunction then []
                  else [(''info'',
                         if serializable (unwrap rt error) then JsonOf (json_value (unwrap rt error))
                         else JStr ''[Statsig] Failed to get string for error.'')])
               @ [(''statsigMetadata'',
                     meta_obj (case statsigMetadata s of None \<Rightarrow> [] | Some m \<Rightarrow> m))]
               @ (if extra = JFunction then []
                  else [(''extra'',
                         json_value (if extra = JNull \<or> extra = JUndefined then JObj []
                                     else extra))]))) \<and>
            body_keys (body r) =
              [''tag'', ''exception'']
              @ (if instanceof_Error (unwrap rt error) \<and> error_stack (unwrap rt error) = JUndefined
                    \<or> error = JFunction
                 then [] else [''info''])
              @ [''statsigMetadata'']
              @ (if extra = JFunction then [] else [''extra'']) \<and>
            map_of (headers r) ''STATSIG-API-KEY'' = Some (sdkKey s) \<and>
            map_of (headers r) ''STATSIG-SDK-TYPE''
              = Some (case map_of (case statsigMetadata s of None \<Rightarrow> [] | Some m \<Rightarrow> m) ''sdkType'' of
                        None \<Rightarrow> ''undefined''
                      | Some (MStr t) \<Rightarrow> t
                      | Some (MNum x) \<Rightarrow> Number_toString x) \<and>
            map_of (headers r) ''STATSIG-SDK-VERSION''
              = Some (case map_of (case statsigMetadata s of None \<Rightarrow> [] | Some m \<Rightarrow> m) ''sdkVersion'' of
                        None \<Rightarrow> ''undefined''
                      | Some (MStr t) \<Rightarrow> t
                      | Some (MNum x) \<Rightarrow> Number_toString x))) \<and>
   reports (events (fst (logError rt s tag error ged))) =
     (case ged of
        None \<Rightarrow> reports (events (fst (logError_report rt s tag error JNull)))
      | Some ex \<Rightarrow> reports (events s)) \<and>
   reports (events (fst (logError_resume rt s i))) =
     (if i < length (suspended s)
      then (case await (sr_awaited (suspended s ! i)) of
              Resumed extra' \<Rightarrow>
                reports (events (fst (logError_report rt s (sr_tag (suspended s ! i))
                                        (sr_error (suspended s ! i)) extra')))
            | Raised e \<Rightarrow> reports (events s)
            | Suspended \<Rightarrow> reports (events s))
      else reports (events s))"
proof -
  let ?req = "report_request rt s tag error extra"
  let ?P = "\<lambda>r.
            url r = ''https://statsigapi.net/v1/sdk_exception'' \<and>
            http_method r = ''POST'' \<and>
            body r = JsonOf (JObj
              ([(''tag'', JStr tag),
                (''exception'',
                   JStr (if instanceof_Error (unwrap rt error) then error_name (unwrap rt error)
                         else ''No Name''))]
               @ (if instanceof_Error (unwrap rt error)
                  then (if error_stack (unwrap rt error) = JUndefined then []
                        else [(''info'', error_stack (unwrap rt error))])
                  else if error = JFunction then []
                  else [(''info'',
                         if serializable (unwrap rt error) then JsonOf (json_value (unwrap rt error))
                         else JStr ''[Statsig] Failed to get string for error.'')])
               @ [(''statsigMetadata'',
                     meta_obj (case statsigMetadata s of None \<Rightarrow> [] | Some m \<Rightarrow> m))]
               @ (if extra = JFunction then []
                  else [(''extra'',
                         json_value (if extra = JNull \<or> extra = JUndefined then JObj []
                                     else extra))]))) \<and>
            body_keys (body r) =
              [''tag'', ''exception'']
              @ (if instanceof_Error (unwrap rt error) \<and> error_stack (unwrap rt error) = JUndefined
                    \<or> error = JFunction
                 then [] else [''info''])
              @ [''statsigMetadata'']
              @ (if extra = JFunction then [] else [''extra'']) \<and>
            map_of (headers r) ''STATSIG-API-KEY'' = Some (sdkKey s) \<and>
            map_of (headers r) ''STATSIG-SDK-TYPE''
              = Some (case map_of (case statsigMetadata s of None \<Rightarrow> [] | Some m \<Rightarrow> m) ''sdkType'' of
                        None \<Rightarrow> ''undefined''
                      | Some (MStr t) \<Rightarrow> t
                      | Some (MNum x) \<Rightarrow> Number_toString x) \<and>
            map_of (headers r) ''STATSIG-SDK-VERSION''
              = Some (case map_of (case statsigMetadata s of None \<Rightarrow> [] | Some m \<Rightarrow> m) ''sdkVersion'' of
                        None \<Rightarrow> ''undefined''
                      | Some (MStr t) \<Rightarrow> t
                      | Some (MNum x) \<Rightarrow> Number_toString x)"
  have shape: "reports (events (fst (logError_report rt s tag error extra))) = reports (events s) @ [] \<or>
      reports (events (fst (logError_report rt s tag error extra))) = reports (events s) @ [?req]"
    using logError_report_new_reports [of rt s tag error extra] by simp
  have keys: "body_keys (body ?req) =
              [''tag'', ''exception'']
              @ (if instanceof_Error (unwrap rt error) \<and> error_stack (unwrap rt error) = JUndefined
                    \<or> error = JFunction
                 then [] else [''info''])
              @ [''statsigMetadata'']
              @ (if extra = JFunction then [] else [''extra''])"
    using function_not_error [of error rt] by (simp add: report_request_body)
  have req: "?P ?req"
    by (intro conjI)
       (rule report_request_rest(1), rule report_request_rest(2), rule report_request_body,
        rule keys, rule report_request_rest(3), rule report_request_rest(4),
        rule report_request_rest(5))
  have first: "\<exists>rs. reports (events (fst (logError_report rt s tag error extra))) = reports (events s) @ rs \<and>
         length rs \<le> 1 \<and> (\<forall>r \<in> set rs. ?P r)"
    using shape
  proof
    assume none: "reports (events (fst (logError_report rt s tag error extra))) = reports (events s) @ []"
    show ?thesis
    proof (intro exI [of _ "[]"] conjI)
      show "reports (events (fst (logError_report rt s tag error extra))) = reports (events s) @ []"
        by (rule none)
      show "length ([] :: request list) \<le> 1" by simp
      show "\<forall>r \<in> set ([] :: request list). ?P r" by simp
    qed
  next
    assume one: "reports (events (fst (logError_report rt s tag error extra))) = reports (events s) @ [?req]"
    show ?thesis
    proof (intro exI [of _ "[?req]"] conjI)
      show "reports (events (fst (logError_report rt s tag error extra))) = reports (events s) @ [?req]"
        by (rule one)
      show "length [?req] \<le> 1" by simp
      show "\<forall>r \<in> set [?req]. ?P r"
      proof
        fix r
        assume "r \<in> set [?req]"
        then have r: "r = ?req" by simp
        show "?P r" unfolding r by (rule req)
      qed
    qed
  qed
  have second: "reports (events (fst (logError rt s tag error ged))) =
     (case ged of
        None \<Rightarrow> reports (events (fst (logError_report rt s tag error JNull)))
      | Some ex \<Rightarrow> reports (events s))"
    by (simp add: logError_state reports_append split: option.splits completion.splits)
  have frame: "reports (events (fst (logError_report rt (s\<lparr>suspended := X\<rparr>) t e x)))
      = reports (events (fst (logError_report rt s t e x)))" for X t e x
    by (simp add: logError_report_unsuspend)
  have third: "reports (events (fst (logError_resume rt s i))) =
     (if i < length (suspended s)
      then (case await (sr_awaited (suspended s ! i)) of
              Resumed extra' \<Rightarrow>
                reports (events (fst (logError_report rt s (sr_tag (suspended s ! i))
                                        (sr_error (suspended s ! i)) extra')))
            | Raised e \<Rightarrow> reports (events s)
            | Suspended \<Rightarrow> reports (events s))
      else reports (events s))"
    by (simp add: logError_resume_state frame split: awaited.splits)
  show ?thesis
    by (intro conjI) (rule first, rule second, rule third)
qed

theorem exception_report_shape_witness:
  "reports (events (fst (logError_report quiet_runtime
       (setStatsigMetadata (ErrorBoundary_new ''client-key'' 1) client_metadata)
       ''checkGate'' type_error JNull)))
   = [\<lparr>url = ''https://statsigapi.net/v1/sdk_exception'',
       http_method = ''POST'',
       headers = [(''STATSIG-API-KEY'', ''client-key''),
                  (''STATSIG-SDK-TYPE'', ''js-client''),
                  (''STATSIG-SDK-VERSION'', ''4.2''),
                  (''Content-Type'', ''application/json; charset=UTF-8'')],
       body = JsonOf (JObj
                [(''tag'', JStr ''checkGate''),
                 (''exception'', JStr ''TypeError''),
                 (''info'', JStr ''TypeError: x is not a function''),
                 (''statsigMetadata'',
                    JObj [(''sdkType'', JStr ''js-client''), (''sdkVersion'', JNum (Finite False 42 1))]),
                 (''extra'', JObj [])])\<rparr>] \<and>
   reports (events (fst (logError quiet_runtime
       (setStatsigMetadata (ErrorBoundary_new ''client-key'' 1) client_metadata)
       ''checkGate'' type_error None)))
   = reports (events (fst (logError_report quiet_runtime
       (setStatsigMetadata (ErrorBoundary_new ''client-key'' 1) client_metadata)
       ''checkGate'' type_error JNull))) \<and>
   map (\<lambda>r. (map_of (headers r) ''STATSIG-SDK-VERSION'', body_keys (body r)))
     (reports (events (fst (logError_report quiet_runtime
        (setStatsigMetadata (ErrorBoundary_new ''client-key'' 1)
           [(''sdkVersion'', MNum (Finite False 1 22))])
        ''checkGate'' JFunction JFunction))))
   = [(Some ''1e+21'', [''tag'', ''exception'', ''statsigMetadata''])]"
  using exception_report_shape
    [of quiet_runtime "setStatsigMetadata (ErrorBoundary_new ''client-key'' 1) client_metadata"
        "''checkGate''" type_error JNull None 0]
  by (simp add: boundary_defs report_defs scenario_defs setStatsigMetadata_def
      positive_text_def exponent_text_def digits_examples)

end
